theory Spec2Isabelle
  imports Complex_Main "HOL-Library.Word"
begin

unbundle bit_operations_syntax

section \<open>Data model of \<^verbatim>\<open>conway.cpp\<close>\<close>

text \<open>
  The grid lives in two \<^verbatim>\<open>GL_R8\<close> textures of \<^verbatim>\<open>WIDTH\<close> x \<^verbatim>\<open>HEIGHT\<close> texels. A texel is one
  unsigned byte; the shader sees it as the normalised value \<open>byte / 255\<close> and writes a
  float that is converted back to a byte. The only float values that occur are \<open>byte / 255\<close>,
  \<open>0.0\<close>, \<open>1.0\<close> and the constant \<open>0.5\<close>; they are modelled as rationals (the comparison
  with \<open>0.5\<close> has the same outcome in single precision, since no \<open>byte / 255\<close> is closer to
  one half than \<open>1 / 510\<close>).

  \<^verbatim>\<open>WIDTH\<close> and \<^verbatim>\<open>HEIGHT\<close> are macros (2000 in the source); the model takes them as
  parameters. The shader's \<^verbatim>\<open>int\<close> coordinates are modelled as \<open>int\<close>: image dimensions
  are far below \<open>2^30\<close>, so \<^verbatim>\<open>pos + ivec2(dx, dy) + size\<close> cannot wrap.
\<close>

type_synonym GLubyte = "8 word"
type_synonym GLuint = "32 word"
type_synonym GLenum = "32 word"
type_synonym ivec2 = "int \<times> int"

record image2D =
  img_width :: int
  img_height :: int
  texels :: "GLubyte list"

definition GL_NO_ERROR :: GLenum where
  "GL_NO_ERROR = 0"

definition ALIVE :: GLubyte where
  "ALIVE = 255"

definition DEAD :: GLubyte where
  "DEAD = 0"

text \<open>Conversion between a \<^verbatim>\<open>GL_R8\<close> byte and the float the shader handles.\<close>

definition unorm8_to_float :: "GLubyte \<Rightarrow> rat" where
  "unorm8_to_float b = of_nat (unat b) / 255"

definition float_to_unorm8 :: "rat \<Rightarrow> GLubyte" where
  "float_to_unorm8 v = word_of_int (round (max 0 (min 1 v) * 255))"

definition imageSize :: "image2D \<Rightarrow> ivec2" where
  "imageSize img = (img_width img, img_height img)"

definition in_image :: "image2D \<Rightarrow> ivec2 \<Rightarrow> bool" where
  "in_image img pos \<longleftrightarrow>
     0 \<le> fst pos \<and> fst pos < img_width img \<and> 0 \<le> snd pos \<and> snd pos < img_height img"

definition texel_index :: "image2D \<Rightarrow> ivec2 \<Rightarrow> nat" where
  "texel_index img pos = nat (snd pos * img_width img + fst pos)"

text \<open>The byte stored at a position (rows of \<^verbatim>\<open>WIDTH\<close> bytes, as \<^verbatim>\<open>glTexSubImage2D\<close> uploads
  them). A load outside the image yields zero and a store outside the image is discarded.\<close>

definition texel :: "image2D \<Rightarrow> ivec2 \<Rightarrow> GLubyte" where
  "texel img pos = (if in_image img pos then texels img ! texel_index img pos else 0)"

definition imageLoad_r :: "image2D \<Rightarrow> ivec2 \<Rightarrow> rat" where
  "imageLoad_r img pos = unorm8_to_float (texel img pos)"

definition imageStore_r :: "image2D \<Rightarrow> ivec2 \<Rightarrow> rat \<Rightarrow> image2D" where
  "imageStore_r img pos v =
     (if in_image img pos
      then img\<lparr>texels := (texels img)[texel_index img pos := float_to_unorm8 v]\<rparr>
      else img)"

definition wf_image :: "int \<Rightarrow> int \<Rightarrow> image2D \<Rightarrow> bool" where
  "wf_image W H img \<longleftrightarrow>
     img_width img = W \<and> img_height img = H \<and> 0 \<le> W \<and> 0 \<le> H \<and>
     length (texels img) = nat (W * H)"

section \<open>The compute shader\<close>

text \<open>The remainder \<^verbatim>\<open>%\<close> on signed integers, truncating towards zero. (GLSL leaves the result
  undefined when an operand is negative; the kernel never gets there, see
  \<open>neighborPos_in_image\<close>.) The same operator is C's \<^verbatim>\<open>%\<close> in \<^verbatim>\<open>initializeGrid\<close>.\<close>

definition trunc_mod :: "int \<Rightarrow> int \<Rightarrow> int" where
  "trunc_mod a b = sgn a * (\<bar>a\<bar> mod \<bar>b\<bar>)"

definition ivec2_add :: "ivec2 \<Rightarrow> ivec2 \<Rightarrow> ivec2" where
  "ivec2_add a b = (fst a + fst b, snd a + snd b)"

definition ivec2_mod :: "ivec2 \<Rightarrow> ivec2 \<Rightarrow> ivec2" where
  "ivec2_mod a b = (trunc_mod (fst a) (fst b), trunc_mod (snd a) (snd b))"

text \<open>\<^verbatim>\<open>ivec2 neighborPos = (pos + ivec2(dx, dy) + size) % size;\<close>\<close>

definition neighborPos :: "ivec2 \<Rightarrow> ivec2 \<Rightarrow> int \<Rightarrow> int \<Rightarrow> ivec2" where
  "neighborPos sz pos dx dy = ivec2_mod (ivec2_add (ivec2_add pos (dx, dy)) sz) sz"

text \<open>The two nested \<^verbatim>\<open>for\<close> loops over \<open>dy\<close> and \<open>dx\<close> in \<open>-1 .. 1\<close>, with the
  \<^verbatim>\<open>continue\<close> at \<open>dx = 0 \<and> dy = 0\<close>.\<close>

definition liveNeighbors :: "image2D \<Rightarrow> ivec2 \<Rightarrow> int" where
  "liveNeighbors currentGrid pos =
     fold (\<lambda>dy n.
        fold (\<lambda>dx n.
           if dx = 0 \<and> dy = 0 then n
           else n + (if imageLoad_r currentGrid (neighborPos (imageSize currentGrid) pos dx dy) > 1 / 2
                     then 1 else 0))
          [-1, 0, 1] n)
       [-1, 0, 1] 0"

text \<open>The rule: \<^verbatim>\<open>if (current > 0.5) ... else ...\<close>.\<close>

definition nextState :: "rat \<Rightarrow> int \<Rightarrow> rat" where
  "nextState current n =
     (if current > 1 / 2 then (if n = 2 \<or> n = 3 then 1 else 0)
      else (if n = 3 then 1 else 0))"

text \<open>One invocation of \<^verbatim>\<open>main()\<close> at \<^verbatim>\<open>gl_GlobalInvocationID.xy = pos\<close>; the result is the
  image bound as \<^verbatim>\<open>nextGrid\<close> after the invocation.\<close>

definition compute_main :: "image2D \<Rightarrow> image2D \<Rightarrow> ivec2 \<Rightarrow> image2D" where
  "compute_main currentGrid nextGrid pos =
     (let sz = imageSize currentGrid in
      if fst pos \<ge> fst sz \<or> snd pos \<ge> snd sz then nextGrid
      else
        let current = imageLoad_r currentGrid pos;
            n = liveNeighbors currentGrid pos
        in imageStore_r nextGrid pos (nextState current n))"

text \<open>\<^verbatim>\<open>glDispatchCompute(numGroupsX, numGroupsY, 1)\<close> with a local size of 16 x 16: one
  invocation for every id in \<open>[0, 16 * numGroupsX) \<times> [0, 16 * numGroupsY)\<close>. The order of the
  invocations is not fixed by GL; \<open>run_invocations\<close> takes the order as a list, and
  \<open>run_invocations_texel\<close> shows that the result does not depend on it.\<close>

definition run_invocations :: "image2D \<Rightarrow> ivec2 list \<Rightarrow> image2D \<Rightarrow> image2D" where
  "run_invocations currentGrid ids nextGrid =
     fold (\<lambda>pos nxt. compute_main currentGrid nxt pos) ids nextGrid"

definition invocation_ids :: "nat \<Rightarrow> nat \<Rightarrow> ivec2 list" where
  "invocation_ids numGroupsX numGroupsY =
     concat (map (\<lambda>y. map (\<lambda>x. (int x, int y)) [0..<16 * numGroupsX]) [0..<16 * numGroupsY])"

definition glDispatchCompute :: "nat \<Rightarrow> nat \<Rightarrow> image2D \<Rightarrow> image2D \<Rightarrow> image2D" where
  "glDispatchCompute numGroupsX numGroupsY currentGrid nextGrid =
     run_invocations currentGrid (invocation_ids numGroupsX numGroupsY) nextGrid"

text \<open>The byte that the invocation at \<open>p\<close> stores.\<close>

definition next_texel :: "image2D \<Rightarrow> ivec2 \<Rightarrow> GLubyte" where
  "next_texel cur p = float_to_unorm8 (nextState (imageLoad_r cur p) (liveNeighbors cur p))"

section \<open>The host program\<close>

text \<open>
  The members of \<^verbatim>\<open>GridVisualizer\<close> that the simulation uses (\<^verbatim>\<open>textures[2]\<close> and
  \<^verbatim>\<open>currentTextureIdx\<close>), the texture objects of the GL context (a store from texture names to
  images, since \<^verbatim>\<open>textures\<close> holds names and both names are bound in every step), and what
  \<^verbatim>\<open>initializeGrid\<close> and \<^verbatim>\<open>computeStep\<close> have written to \<^verbatim>\<open>std::cout\<close> and \<^verbatim>\<open>std::cerr\<close>
  (the lines of the constructor and of \<^verbatim>\<open>renderFrame\<close> are not recorded).
\<close>

datatype diag =
    Compute_Reading_Writing GLuint GLuint
  | Error_After_glDispatchCompute GLenum
  | Texture_Upload_Error GLenum
  | GlGetTexImage_Error GLenum
  | Textures_Uploaded

record viz_state =
  textures :: "GLuint list"
  currentTextureIdx :: GLuint
  gl_textures :: "GLuint \<rightharpoonup> image2D"
  cout :: "diag list"
  cerr :: "diag list"

text \<open>\<^verbatim>\<open>textures[currentTextureIdx]\<close> is what \<^verbatim>\<open>computeStep\<close> binds read-only and what
  \<^verbatim>\<open>renderFrame\<close> draws; \<^verbatim>\<open>textures[1 - currentTextureIdx]\<close> is bound write-only.\<close>

definition current :: "viz_state \<Rightarrow> GLuint" where
  "current s = textures s ! unat (currentTextureIdx s)"

definition writable :: "viz_state \<Rightarrow> GLuint" where
  "writable s = textures s ! unat (1 - currentTextureIdx s)"

text \<open>The dispatch on the two bound images: the kernel reads the object named \<open>rd\<close> and writes
  the object named \<open>wr\<close>.\<close>

definition dispatch_bound ::
  "nat \<Rightarrow> nat \<Rightarrow> GLuint \<Rightarrow> GLuint \<Rightarrow> (GLuint \<rightharpoonup> image2D) \<Rightarrow> (GLuint \<rightharpoonup> image2D)" where
  "dispatch_bound numGroupsX numGroupsY rd wr store =
     (case store rd of
        None \<Rightarrow> store
      | Some c \<Rightarrow>
          (case store wr of
             None \<Rightarrow> store
           | Some n \<Rightarrow> store(wr \<mapsto> glDispatchCompute numGroupsX numGroupsY c n)))"

text \<open>
  \<^verbatim>\<open>computeStep()\<close>. The value \<open>err\<close> is what \<^verbatim>\<open>glGetError()\<close> returns after the dispatch; it
  comes from the GL implementation. When it is \<^verbatim>\<open>GL_NO_ERROR\<close> the dispatch has run the kernel;
  otherwise GL has ignored the failing command and the texture objects are as before.
  \<^verbatim>\<open>glMemoryBarrier\<close> has no effect on the sequential state. The last line,
  \<^verbatim>\<open>currentTextureIdx = 1 - currentTextureIdx\<close>, is outside the \<^verbatim>\<open>if\<close>.
\<close>

definition computeStep :: "int \<Rightarrow> int \<Rightarrow> GLenum \<Rightarrow> viz_state \<Rightarrow> viz_state" where
  "computeStep WIDTH HEIGHT err s =
     (let rd = textures s ! unat (currentTextureIdx s);
          wr = textures s ! unat (1 - currentTextureIdx s);
          numGroupsX = nat ((WIDTH + 15) div 16);
          numGroupsY = nat ((HEIGHT + 15) div 16);
          s1 = (if err = GL_NO_ERROR
                then s\<lparr>gl_textures := dispatch_bound numGroupsX numGroupsY rd wr (gl_textures s)\<rparr>
                else s);
          s2 = (if err \<noteq> GL_NO_ERROR
                then s1\<lparr>cout := cout s1 @ [Compute_Reading_Writing rd wr],
                        cerr := cerr s1 @ [Error_After_glDispatchCompute err]\<rparr>
                else s1)
      in s2\<lparr>currentTextureIdx := 1 - currentTextureIdx s2\<rparr>)"

text \<open>The loop of \<^verbatim>\<open>initializeGrid\<close>: \<^verbatim>\<open>initialData[i] = rand() % 2 ? 255 : 0\<close> for \<open>n\<close>
  consecutive cells. \<^verbatim>\<open>rand\<close> is the C library's generator, a function from its hidden state
  to a value and the next state; it is a parameter of the model.\<close>

fun fill_initialData :: "('r \<Rightarrow> int \<times> 'r) \<Rightarrow> nat \<Rightarrow> 'r \<Rightarrow> GLubyte list \<times> 'r" where
  "fill_initialData rand 0 r = ([], r)"
| "fill_initialData rand (Suc n) r =
     (let (v, r') = rand r;
          (rest, r'') = fill_initialData rand n r'
      in ((if trunc_mod v 2 \<noteq> 0 then 255 else 0) # rest, r''))"

text \<open>
  \<^verbatim>\<open>initializeGrid()\<close>: the data goes to \<^verbatim>\<open>textures[0]\<close>. \<open>upload_err\<close> and \<open>readback_err\<close> are
  the two results of \<^verbatim>\<open>glGetError()\<close>. The uploaded region is the whole texture, which the
  constructor has allocated with the same \<^verbatim>\<open>WIDTH\<close> and \<^verbatim>\<open>HEIGHT\<close>. GL reads the rows of
  \<^verbatim>\<open>initialData\<close> at the default unpack alignment of 4 bytes, so the rows are the consecutive
  runs of \<^verbatim>\<open>WIDTH\<close> bytes exactly when \<^verbatim>\<open>WIDTH\<close> is a multiple of 4, as 2000 is; the theorems
  about the upload carry that hypothesis.
\<close>

definition initializeGrid ::
  "int \<Rightarrow> int \<Rightarrow> ('r \<Rightarrow> int \<times> 'r) \<Rightarrow> GLenum \<Rightarrow> GLenum \<Rightarrow> viz_state \<times> 'r \<Rightarrow> viz_state \<times> 'r" where
  "initializeGrid WIDTH HEIGHT rand upload_err readback_err sr =
     (let s = fst sr;
          (initialData, r') = fill_initialData rand (nat (WIDTH * HEIGHT)) (snd sr);
          t0 = textures s ! 0;
          s1 = (if upload_err = GL_NO_ERROR
                then (case gl_textures s t0 of
                        None \<Rightarrow> s
                      | Some img \<Rightarrow> s\<lparr>gl_textures := (gl_textures s)(t0 \<mapsto> img\<lparr>texels := initialData\<rparr>)\<rparr>)
                else s\<lparr>cerr := cerr s @ [Texture_Upload_Error upload_err]\<rparr>);
          s2 = (if readback_err \<noteq> GL_NO_ERROR
                then s1\<lparr>cerr := cerr s1 @ [GlGetTexImage_Error readback_err]\<rparr>
                else s1\<lparr>cout := cout s1 @ [Textures_Uploaded]\<rparr>)
      in (s2, r'))"

text \<open>
  The state the constructor leaves when window, context and textures have been created:
  \<^verbatim>\<open>glGenTextures\<close> has returned the names \<open>t0\<close> and \<open>t1\<close>, \<^verbatim>\<open>glTexImage2D\<close> with a null data
  pointer has allocated \<^verbatim>\<open>WIDTH\<close> x \<^verbatim>\<open>HEIGHT\<close> texels of unspecified contents (\<open>u0\<close> and \<open>u1\<close>),
  and \<^verbatim>\<open>currentTextureIdx = 0\<close>.
\<close>

definition constructed ::
  "int \<Rightarrow> int \<Rightarrow> GLuint \<Rightarrow> GLuint \<Rightarrow> (nat \<Rightarrow> GLubyte) \<Rightarrow> (nat \<Rightarrow> GLubyte) \<Rightarrow> viz_state" where
  "constructed WIDTH HEIGHT t0 t1 u0 u1 =
     \<lparr>textures = [t0, t1],
      currentTextureIdx = 0,
      gl_textures =
        [t0 \<mapsto> \<lparr>img_width = WIDTH, img_height = HEIGHT, texels = map u0 [0..<nat (WIDTH * HEIGHT)]\<rparr>,
         t1 \<mapsto> \<lparr>img_width = WIDTH, img_height = HEIGHT, texels = map u1 [0..<nat (WIDTH * HEIGHT)]\<rparr>],
      cout = [],
      cerr = []\<rparr>"

text \<open>
  The first two statements of \<^verbatim>\<open>main\<close>. No statement of the program calls \<^verbatim>\<open>srand\<close>, so the
  generator is in the state \<open>r0\<close> in which the C library starts every process.
\<close>

definition main_init ::
  "int \<Rightarrow> int \<Rightarrow> ('r \<Rightarrow> int \<times> 'r) \<Rightarrow> 'r \<Rightarrow> GLuint \<Rightarrow> GLuint \<Rightarrow> (nat \<Rightarrow> GLubyte) \<Rightarrow> (nat \<Rightarrow> GLubyte)
     \<Rightarrow> GLenum \<Rightarrow> GLenum \<Rightarrow> viz_state \<times> 'r" where
  "main_init WIDTH HEIGHT rand r0 t0 t1 u0 u1 upload_err readback_err =
     initializeGrid WIDTH HEIGHT rand upload_err readback_err
       (constructed WIDTH HEIGHT t0 t1 u0 u1, r0)"

text \<open>The values that the first \<open>n\<close> calls of \<^verbatim>\<open>rand()\<close> return from the state \<open>r\<close>.\<close>

fun rand_values :: "('r \<Rightarrow> int \<times> 'r) \<Rightarrow> nat \<Rightarrow> 'r \<Rightarrow> int list" where
  "rand_values rand 0 r = []"
| "rand_values rand (Suc n) r = fst (rand r) # rand_values rand n (snd (rand r))"

text \<open>
  The specification's \<^verbatim>\<open>initialize(width, height, density)\<close>. The program has one way to
  initialise the grid, the constructor followed by \<^verbatim>\<open>initializeGrid()\<close>; neither takes nor
  reads a density, so the argument is unused.
\<close>

definition initialize ::
  "int \<Rightarrow> int \<Rightarrow> rat \<Rightarrow> ('r \<Rightarrow> int \<times> 'r) \<Rightarrow> 'r \<Rightarrow> GLuint \<Rightarrow> GLuint \<Rightarrow> (nat \<Rightarrow> GLubyte) \<Rightarrow> (nat \<Rightarrow> GLubyte)
     \<Rightarrow> GLenum \<Rightarrow> GLenum \<Rightarrow> viz_state \<times> 'r" where
  "initialize width height density rand r0 t0 t1 u0 u1 upload_err readback_err =
     main_init width height rand r0 t0 t1 u0 u1 upload_err readback_err"

text \<open>The image a texture name denotes; an unbound name has no texels.\<close>

definition image_of :: "viz_state \<Rightarrow> GLuint \<Rightarrow> image2D" where
  "image_of s t =
     (case gl_textures s t of
        None \<Rightarrow> \<lparr>img_width = 0, img_height = 0, texels = []\<rparr>
      | Some img \<Rightarrow> img)"

definition has_image :: "int \<Rightarrow> int \<Rightarrow> viz_state \<Rightarrow> GLuint \<Rightarrow> bool" where
  "has_image W H s t = (case gl_textures s t of None \<Rightarrow> False | Some img \<Rightarrow> wf_image W H img)"

text \<open>The invariant of the object between calls: two distinct texture names, each bound to
  a \<^verbatim>\<open>WIDTH\<close> x \<^verbatim>\<open>HEIGHT\<close> image, and an index that is 0 or 1.\<close>

definition wf_state :: "int \<Rightarrow> int \<Rightarrow> viz_state \<Rightarrow> bool" where
  "wf_state W H s \<longleftrightarrow>
     length (textures s) = 2 \<and> textures s ! 0 \<noteq> textures s ! 1 \<and>
     (currentTextureIdx s = 0 \<or> currentTextureIdx s = 1) \<and>
     has_image W H s (textures s ! 0) \<and> has_image W H s (textures s ! 1)"

section \<open>The specification's words\<close>

text \<open>A cell is ALIVE when its intensity is above the midpoint of \<open>0 .. 255\<close>.\<close>

definition spec_alive :: "GLubyte \<Rightarrow> bool" where
  "spec_alive b \<longleftrightarrow> 128 \<le> unat b"

text \<open>The 8 positions \<open>(p + (dx, dy)) mod (W, H)\<close> for \<open>dx, dy\<close> in \<open>{-1, 0, 1}\<close> without
  \<open>(0, 0)\<close>, with the mathematical \<open>mod\<close>.\<close>

definition spec_neighbors :: "int \<Rightarrow> int \<Rightarrow> ivec2 \<Rightarrow> ivec2 list" where
  "spec_neighbors W H p =
     map (\<lambda>d. ((fst p + fst d) mod W, (snd p + snd d) mod H))
       [(-1, -1), (0, -1), (1, -1), (-1, 0), (1, 0), (-1, 1), (0, 1), (1, 1)]"

definition spec_live_count :: "int \<Rightarrow> int \<Rightarrow> image2D \<Rightarrow> ivec2 \<Rightarrow> int" where
  "spec_live_count W H img p =
     int (length (filter (\<lambda>q. spec_alive (texel img q)) (spec_neighbors W H p)))"

text \<open>The rule table: an ALIVE cell stays ALIVE with 2 or 3 live neighbours, a DEAD cell
  becomes ALIVE with exactly 3.\<close>

definition spec_rule :: "bool \<Rightarrow> int \<Rightarrow> GLubyte" where
  "spec_rule alive n =
     (if alive then (if n = 2 \<or> n = 3 then ALIVE else DEAD)
      else (if n = 3 then ALIVE else DEAD))"

text \<open>An image given by its cells, and the next generation of an image.\<close>

definition mk_image :: "int \<Rightarrow> int \<Rightarrow> (ivec2 \<Rightarrow> GLubyte) \<Rightarrow> image2D" where
  "mk_image W H f =
     \<lparr>img_width = W, img_height = H,
      texels = map (\<lambda>i. f (int i mod W, int i div W)) [0..<nat (W * H)]\<rparr>"

definition spec_next_generation :: "int \<Rightarrow> int \<Rightarrow> image2D \<Rightarrow> image2D" where
  "spec_next_generation W H img =
     mk_image W H (\<lambda>p. spec_rule (spec_alive (texel img p)) (spec_live_count W H img p))"

text \<open>Patterns on the torus. Each is the product of a set of columns and a set of rows:
  a horizontal and a vertical blinker with centre \<open>(cx, cy)\<close>, and a 2 x 2 block with lower
  corner \<open>(cx, cy)\<close>; every other cell is DEAD.\<close>

definition product_pattern :: "int \<Rightarrow> int \<Rightarrow> (int \<Rightarrow> bool) \<Rightarrow> (int \<Rightarrow> bool) \<Rightarrow> image2D" where
  "product_pattern W H A B =
     mk_image W H (\<lambda>p. if A (fst p) \<and> B (snd p) then ALIVE else DEAD)"

definition blinker_h :: "int \<Rightarrow> int \<Rightarrow> int \<Rightarrow> int \<Rightarrow> image2D" where
  "blinker_h W H cx cy =
     product_pattern W H (\<lambda>x. x = (cx - 1) mod W \<or> x = cx \<or> x = (cx + 1) mod W) (\<lambda>y. y = cy)"

definition blinker_v :: "int \<Rightarrow> int \<Rightarrow> int \<Rightarrow> int \<Rightarrow> image2D" where
  "blinker_v W H cx cy =
     product_pattern W H (\<lambda>x. x = cx) (\<lambda>y. y = (cy - 1) mod H \<or> y = cy \<or> y = (cy + 1) mod H)"

datatype orientation = Horizontal | Vertical

fun blinker :: "orientation \<Rightarrow> int \<Rightarrow> int \<Rightarrow> int \<Rightarrow> int \<Rightarrow> image2D" where
  "blinker Horizontal W H cx cy = blinker_h W H cx cy"
| "blinker Vertical W H cx cy = blinker_v W H cx cy"

fun turned :: "orientation \<Rightarrow> orientation" where
  "turned Horizontal = Vertical"
| "turned Vertical = Horizontal"

definition block :: "int \<Rightarrow> int \<Rightarrow> int \<Rightarrow> int \<Rightarrow> image2D" where
  "block W H cx cy =
     product_pattern W H (\<lambda>x. x = cx \<or> x = (cx + 1) mod W) (\<lambda>y. y = cy \<or> y = (cy + 1) mod H)"

text \<open>A state whose current grid is a given image: the constructor's state with the image
  in the texture \<^verbatim>\<open>textures[0]\<close>.\<close>

definition state_with :: "image2D \<Rightarrow> image2D \<Rightarrow> viz_state" where
  "state_with img0 img1 =
     \<lparr>textures = [1, 2], currentTextureIdx = 0, gl_textures = [1 \<mapsto> img0, 2 \<mapsto> img1],
      cout = [], cerr = []\<rparr>"

section \<open>The program as built and its GL command stream\<close>

text \<open>\<^verbatim>\<open>#define WIDTH 2000\<close> and \<^verbatim>\<open>#define HEIGHT 2000\<close>: the only grid size the program
  has. The definitions above take the size as parameters named after the macros; the
  theorems about the program as built use these constants.\<close>

definition WIDTH :: int where
  "WIDTH = 2000"

definition HEIGHT :: int where
  "HEIGHT = 2000"

















section \<open>Basic facts about images\<close>

lemma texel_index_less:
  assumes "wf_image W H img" "in_image img pos"
  shows "texel_index img pos < length (texels img)"
proof -
  obtain x y where p: "pos = (x, y)" by (cases pos)
  from assms p have b: "0 \<le> x" "x < W" "0 \<le> y" "y < H" and l: "length (texels img) = nat (W * H)"
    and w: "img_width img = W"
    by (auto simp: wf_image_def in_image_def)
  have "y * W + x < (y + 1) * W" using b by (simp add: algebra_simps)
  also have "\<dots> \<le> H * W" using b by (intro mult_right_mono) auto
  finally have "y * W + x < W * H" by (simp add: mult.commute)
  moreover have "0 \<le> y * W + x" using b by simp
  ultimately show ?thesis using p l w by (simp add: texel_index_def)
qed

lemma texel_index_inj:
  assumes "in_image img p" "in_image img q" "texel_index img p = texel_index img q"
  shows "p = q"
proof -
  obtain x y where p: "p = (x, y)" by (cases p)
  obtain x' y' where q: "q = (x', y')" by (cases q)
  let ?W = "img_width img"
  from assms p q have b: "0 \<le> x" "x < ?W" "0 \<le> y" "0 \<le> x'" "x' < ?W" "0 \<le> y'"
    by (auto simp: in_image_def)
  have nn: "0 \<le> y * ?W + x" "0 \<le> y' * ?W + x'" using b by simp_all
  from assms(3) p q nn have e: "y * ?W + x = y' * ?W + x'"
    by (simp add: texel_index_def)
  have "(y * ?W + x) div ?W = y" "(y * ?W + x) mod ?W = x" using b by simp_all
  moreover have "(y' * ?W + x') div ?W = y'" "(y' * ?W + x') mod ?W = x'" using b by simp_all
  ultimately show ?thesis using e p q by metis
qed

lemma imageStore_r_dims [simp]:
  "img_width (imageStore_r img p v) = img_width img"
  "img_height (imageStore_r img p v) = img_height img"
  "length (texels (imageStore_r img p v)) = length (texels img)"
  by (simp_all add: imageStore_r_def)

lemma in_image_store [simp]: "in_image (imageStore_r img p v) q = in_image img q"
  by (simp add: in_image_def)

lemma wf_image_store: "wf_image W H img \<Longrightarrow> wf_image W H (imageStore_r img p v)"
  by (simp add: wf_image_def)

lemma texel_index_store [simp]: "texel_index (imageStore_r img p v) q = texel_index img q"
  by (simp add: texel_index_def)

lemma texel_store:
  assumes "wf_image W H img"
  shows "texel (imageStore_r img p v) q =
           (if q = p \<and> in_image img p then float_to_unorm8 v else texel img q)"
proof (cases "in_image img p")
  case False
  then show ?thesis by (simp add: imageStore_r_def)
next
  case True
  note inp = this
  show ?thesis
  proof (cases "in_image img q")
    case False
    with inp show ?thesis by (auto simp: texel_def)
  next
    case True
    have lt: "texel_index img p < length (texels img)"
      using assms inp by (rule texel_index_less)
    have "texels (imageStore_r img p v) = (texels img)[texel_index img p := float_to_unorm8 v]"
      using inp by (simp add: imageStore_r_def)
    then show ?thesis
      using True inp lt texel_index_inj [OF True inp]
      by (auto simp: texel_def nth_list_update)
  qed
qed

lemma compute_main_dims [simp]:
  "img_width (compute_main cur nxt p) = img_width nxt"
  "img_height (compute_main cur nxt p) = img_height nxt"
  "length (texels (compute_main cur nxt p)) = length (texels nxt)"
  by (simp_all add: compute_main_def Let_def)

lemma wf_image_compute_main: "wf_image W H nxt \<Longrightarrow> wf_image W H (compute_main cur nxt p)"
  by (simp add: wf_image_def)

lemma texel_compute_main:
  assumes "wf_image W H nxt" "img_width cur = W" "img_height cur = H"
  shows "texel (compute_main cur nxt p) q =
           (if q = p \<and> in_image nxt p then next_texel cur p else texel nxt q)"
  using assms texel_store [OF assms(1)]
  by (auto simp: compute_main_def Let_def imageSize_def next_texel_def in_image_def wf_image_def)

lemma wf_image_run: "wf_image W H nxt \<Longrightarrow> wf_image W H (run_invocations cur ids nxt)"
  unfolding run_invocations_def
  by (induction ids arbitrary: nxt) (simp_all add: wf_image_compute_main)

lemma in_image_cong: "img_width a = img_width b \<Longrightarrow> img_height a = img_height b \<Longrightarrow> in_image a p = in_image b p"
  by (simp add: in_image_def)

lemma run_invocations_texel:
  assumes "wf_image W H nxt" "img_width cur = W" "img_height cur = H"
  shows "texel (run_invocations cur ids nxt) q =
           (if q \<in> set ids \<and> in_image nxt q then next_texel cur q else texel nxt q)"
  using assms(1)
proof (induction ids arbitrary: nxt)
  case Nil
  then show ?case by (simp add: run_invocations_def)
next
  case (Cons p ids)
  let ?n = "compute_main cur nxt p"
  have wf: "wf_image W H ?n" using Cons.prems by (rule wf_image_compute_main)
  have r: "run_invocations cur (p # ids) nxt = run_invocations cur ids ?n"
    by (simp add: run_invocations_def)
  have i: "in_image ?n q = in_image nxt q" by (simp add: in_image_def)
  show ?case
    unfolding r Cons.IH [OF wf] i
    using texel_compute_main [OF Cons.prems assms(2,3), of p q] by auto
qed


lemma set_invocation_ids:
  "set (invocation_ids gx gy) = {(int a, int b) | a b. a < 16 * gx \<and> b < 16 * gy}"
  by (auto simp: invocation_ids_def)

lemma invocation_ids_covers:
  assumes "0 \<le> x" "x < W" "0 \<le> y" "y < H"
  shows "(x, y) \<in> set (invocation_ids (nat ((W + 15) div 16)) (nat ((H + 15) div 16)))"
proof -
  have a: "nat x < 16 * nat ((W + 15) div 16)" using assms by linarith
  have b: "nat y < 16 * nat ((H + 15) div 16)" using assms by linarith
  have c: "x = int (nat x)" "y = int (nat y)" using assms by simp_all
  show ?thesis unfolding set_invocation_ids using a b c by blast
qed

lemma wf_mk_image: "0 \<le> W \<Longrightarrow> 0 \<le> H \<Longrightarrow> wf_image W H (mk_image W H f)"
  by (simp add: wf_image_def mk_image_def)

lemma texel_mk_image:
  assumes "0 \<le> x" "x < W" "0 \<le> y" "y < H"
  shows "texel (mk_image W H f) (x, y) = f (x, y)"
proof -
  have wf: "wf_image W H (mk_image W H f)" using assms by (intro wf_mk_image) auto
  have inb: "in_image (mk_image W H f) (x, y)" using assms by (simp add: in_image_def mk_image_def)
  have lt: "texel_index (mk_image W H f) (x, y) < nat (W * H)"
    using texel_index_less [OF wf inb] by (simp add: mk_image_def)
  have ix: "texel_index (mk_image W H f) (x, y) = nat (y * W + x)"
    by (simp add: texel_index_def mk_image_def)
  have nn: "0 \<le> y * W + x" using assms by simp
  have "(y * W + x) mod W = x" "(y * W + x) div W = y" using assms by simp_all
  then show ?thesis using inb lt nn unfolding texel_def ix
    by (simp add: mk_image_def)
qed

lemma image_eqI:
  assumes a: "wf_image W H a" and b: "wf_image W H b"
    and eq: "\<And>x y. 0 \<le> x \<Longrightarrow> x < W \<Longrightarrow> 0 \<le> y \<Longrightarrow> y < H \<Longrightarrow> texel a (x, y) = texel b (x, y)"
  shows "a = b"
proof -
  have len: "length (texels a) = length (texels b)" using a b by (simp add: wf_image_def)
  have "texels a ! i = texels b ! i" if i: "i < length (texels a)" for i
  proof -
    from i a have iWH: "int i < W * H" by (simp add: wf_image_def)
    have Wpos: "0 < W"
    proof (rule ccontr)
      assume "\<not> 0 < W" with a have "W = 0" by (simp add: wf_image_def)
      with iWH show False by simp
    qed
    let ?x = "int i mod W" and ?y = "int i div W"
    have bx: "0 \<le> ?x" "?x < W" using Wpos by simp_all
    have by0: "0 \<le> ?y" using Wpos by (simp add: pos_imp_zdiv_nonneg_iff)
    have by1: "?y < H"
    proof (rule ccontr)
      assume "\<not> ?y < H"
      then have "H * W \<le> ?y * W" using Wpos by (intro mult_right_mono) auto
      also have "\<dots> \<le> int i" using div_mult_mod_eq [of "int i" W] bx by linarith
      finally show False using iWH by (simp add: mult.commute)
    qed
    have ix: "nat (?y * W + ?x) = i" by simp
    have ia: "in_image a (?x, ?y)" "in_image b (?x, ?y)"
      using bx by0 by1 a b by (simp_all add: in_image_def wf_image_def)
    have "texel a (?x, ?y) = texels a ! i" "texel b (?x, ?y) = texels b ! i"
      using ia ix a b by (simp_all add: texel_def texel_index_def wf_image_def)
    with eq [OF bx by0 by1] show ?thesis by simp
  qed
  with len have "texels a = texels b" by (simp add: nth_equalityI)
  with a b show ?thesis by (simp add: wf_image_def)
qed

lemma glDispatchCompute_eq:
  assumes cur: "wf_image W H cur" and nxt: "wf_image W H nxt"
  shows "glDispatchCompute (nat ((W + 15) div 16)) (nat ((H + 15) div 16)) cur nxt =
           mk_image W H (next_texel cur)"
proof (rule image_eqI [where W = W and H = H])
  show "wf_image W H (glDispatchCompute (nat ((W + 15) div 16)) (nat ((H + 15) div 16)) cur nxt)"
    unfolding glDispatchCompute_def using nxt by (rule wf_image_run)
  show "wf_image W H (mk_image W H (next_texel cur))"
    using cur by (intro wf_mk_image) (simp_all add: wf_image_def)
next
  fix x y assume b: "0 \<le> x" "x < W" "0 \<le> y" "y < H"
  have cw: "img_width cur = W" "img_height cur = H" using cur by (simp_all add: wf_image_def)
  have inb: "in_image nxt (x, y)" using b nxt by (simp add: in_image_def wf_image_def)
  show "texel (glDispatchCompute (nat ((W + 15) div 16)) (nat ((H + 15) div 16)) cur nxt) (x, y) =
          texel (mk_image W H (next_texel cur)) (x, y)"
    unfolding glDispatchCompute_def run_invocations_texel [OF nxt cw] texel_mk_image [OF b]
    using invocation_ids_covers [OF b] inb by simp
qed

section \<open>The kernel against the rule and the neighbourhood of the specification\<close>

lemma unorm8_gt_half: "unorm8_to_float b > 1 / 2 \<longleftrightarrow> spec_alive b"
proof -
  have "(of_nat (unat b) / 255 > (1 / 2 :: rat)) \<longleftrightarrow> (of_nat 255 < (of_nat (2 * unat b) :: rat))"
    by (simp add: field_simps)
  also have "\<dots> \<longleftrightarrow> 255 < 2 * unat b" by (simp only: of_nat_less_iff)
  also have "\<dots> \<longleftrightarrow> 128 \<le> unat b" by arith
  finally show ?thesis by (simp add: unorm8_to_float_def spec_alive_def)
qed

lemma unorm8_gt_half': "1 < unorm8_to_float b * 2 \<longleftrightarrow> spec_alive b"
  using unorm8_gt_half [of b] by simp

lemma float_to_unorm8_simps: "float_to_unorm8 1 = ALIVE" "float_to_unorm8 0 = DEAD"
  by (simp_all add: float_to_unorm8_def ALIVE_def DEAD_def)

lemma trunc_mod_nonneg: "0 \<le> a \<Longrightarrow> trunc_mod a b = a mod \<bar>b\<bar>"
  by (cases "a = 0") (simp_all add: trunc_mod_def)

lemma wrap_coord:
  assumes "0 \<le> x" "x < W" "d = -1 \<or> d = 0 \<or> d = 1"
  shows "trunc_mod (x + d + W) W = (x + d) mod W"
proof -
  have "0 \<le> x + d + W" "0 < W" using assms by auto
  then show ?thesis by (simp add: trunc_mod_nonneg)
qed

lemma neighborPos_eq:
  assumes "0 \<le> x" "x < W" "0 \<le> y" "y < H"
    "dx = -1 \<or> dx = 0 \<or> dx = 1" "dy = -1 \<or> dy = 0 \<or> dy = 1"
  shows "neighborPos (W, H) (x, y) dx dy = ((x + dx) mod W, (y + dy) mod H)"
  using wrap_coord [OF assms(1,2,5)] wrap_coord [OF assms(3,4,6)]
  by (simp add: neighborPos_def ivec2_mod_def ivec2_add_def)

lemma neighborPos_in_image:
  assumes "in_image img p" "dx = -1 \<or> dx = 0 \<or> dx = 1" "dy = -1 \<or> dy = 0 \<or> dy = 1"
  shows "in_image img (neighborPos (imageSize img) p dx dy)"
proof -
  obtain x y where p: "p = (x, y)" by (cases p)
  from assms(1) p have b: "0 \<le> x" "x < img_width img" "0 \<le> y" "y < img_height img"
    by (simp_all add: in_image_def)
  show ?thesis
    unfolding p imageSize_def neighborPos_eq [OF b assms(2,3)]
    using b by (simp add: in_image_def)
qed

lemma length_filter_sum:
  "int (length (filter P xs)) = sum_list (map (\<lambda>q. if P q then 1 else 0) xs)"
  by (induction xs) simp_all

lemma liveNeighbors_unfold:
  "liveNeighbors cur p =
     (let sz = imageSize cur; a = (\<lambda>dx dy. if imageLoad_r cur (neighborPos sz p dx dy) > 1 / 2 then 1 else 0)
      in a (-1) (-1) + a 0 (-1) + a 1 (-1) + a (-1) 0 + a 1 0 + a (-1) 1 + a 0 1 + a 1 1)"
  unfolding liveNeighbors_def Let_def fold_simps
  by (simp split del: if_split)

lemma liveNeighbors_spec:
  assumes "wf_image W H cur" "in_image cur p"
  shows "liveNeighbors cur p = spec_live_count W H cur p"
proof -
  obtain x y where p: "p = (x, y)" by (cases p)
  from assms p have b: "0 \<le> x" "x < W" "0 \<le> y" "y < H" and sz: "imageSize cur = (W, H)"
    by (simp_all add: in_image_def wf_image_def imageSize_def)
  have np: "neighborPos (W, H) (x, y) dx dy = ((x + dx) mod W, (y + dy) mod H)"
    if "dx = -1 \<or> dx = 0 \<or> dx = 1" "dy = -1 \<or> dy = 0 \<or> dy = 1" for dx dy
    using that by (rule neighborPos_eq [OF b])
  show ?thesis
    unfolding liveNeighbors_unfold spec_live_count_def spec_neighbors_def p sz length_filter_sum Let_def
    by (simp add: np imageLoad_r_def unorm8_gt_half' add.assoc split del: if_split)
qed

lemma next_texel_spec:
  assumes "wf_image W H cur" "in_image cur p"
  shows "next_texel cur p = spec_rule (spec_alive (texel cur p)) (spec_live_count W H cur p)"
  unfolding next_texel_def liveNeighbors_spec [OF assms]
  by (simp add: nextState_def spec_rule_def imageLoad_r_def unorm8_gt_half' float_to_unorm8_simps)

lemma mk_image_cong:
  assumes "\<And>x y. 0 \<le> x \<Longrightarrow> x < W \<Longrightarrow> 0 \<le> y \<Longrightarrow> y < H \<Longrightarrow> f (x, y) = g (x, y)"
    and "0 \<le> W" "0 \<le> H"
  shows "mk_image W H f = mk_image W H g"
proof (rule image_eqI [where W = W and H = H])
  show "wf_image W H (mk_image W H f)" "wf_image W H (mk_image W H g)"
    using assms(2,3) by (simp_all add: wf_mk_image)
next
  fix x y assume b: "0 \<le> x" "x < W" "0 \<le> y" "y < H"
  show "texel (mk_image W H f) (x, y) = texel (mk_image W H g) (x, y)"
    unfolding texel_mk_image [OF b] by (rule assms(1) [OF b])
qed

lemma glDispatchCompute_spec:
  assumes cur: "wf_image W H cur" and nxt: "wf_image W H nxt"
  shows "glDispatchCompute (nat ((W + 15) div 16)) (nat ((H + 15) div 16)) cur nxt =
           spec_next_generation W H cur"
  unfolding glDispatchCompute_eq [OF assms] spec_next_generation_def
proof (rule mk_image_cong)
  fix x y assume b: "0 \<le> x" "x < W" "0 \<le> y" "y < H"
  then have "in_image cur (x, y)" using cur by (simp add: in_image_def wf_image_def)
  then show "next_texel cur (x, y) =
      spec_rule (spec_alive (texel cur (x, y))) (spec_live_count W H cur (x, y))"
    by (rule next_texel_spec [OF cur])
qed (use cur in \<open>simp_all add: wf_image_def\<close>)

section \<open>One call of \<^verbatim>\<open>computeStep\<close>\<close>

lemma wf_state_cases:
  assumes "wf_state W H s"
  obtains (zero) "currentTextureIdx s = 0" "current s = textures s ! 0" "writable s = textures s ! 1"
  | (one) "currentTextureIdx s = 1" "current s = textures s ! 1" "writable s = textures s ! 0"
  using assms by (auto simp: wf_state_def current_def writable_def)

lemma wf_state_images:
  assumes "wf_state W H s"
  obtains c n where "gl_textures s (current s) = Some c" "wf_image W H c"
    "gl_textures s (writable s) = Some n" "wf_image W H n" "current s \<noteq> writable s"
  using assms
  by (cases rule: wf_state_cases [OF assms])
     (auto simp: wf_state_def has_image_def split: option.splits)

lemma computeStep_fields:
  "textures (computeStep W H err s) = textures s"
  "currentTextureIdx (computeStep W H err s) = 1 - currentTextureIdx s"
  by (simp_all add: computeStep_def Let_def)

lemma computeStep_roles:
  assumes "wf_state W H s"
  shows "current (computeStep W H err s) = writable s" "writable (computeStep W H err s) = current s"
  using assms
  by (cases rule: wf_state_cases [OF assms]; simp add: current_def writable_def computeStep_fields)+

lemma computeStep_ok_store:
  assumes "wf_state W H s"
  shows "gl_textures (computeStep W H GL_NO_ERROR s) =
           (gl_textures s)(writable s \<mapsto> spec_next_generation W H (image_of s (current s)))"
proof -
  from assms obtain c n where i: "gl_textures s (current s) = Some c" "wf_image W H c"
    "gl_textures s (writable s) = Some n" "wf_image W H n"
    by (rule wf_state_images)
  have "gl_textures (computeStep W H GL_NO_ERROR s) =
          dispatch_bound (nat ((W + 15) div 16)) (nat ((H + 15) div 16)) (current s) (writable s) (gl_textures s)"
    by (simp add: computeStep_def Let_def current_def writable_def)
  also have "\<dots> = (gl_textures s)(writable s \<mapsto> spec_next_generation W H c)"
    using i by (simp add: dispatch_bound_def glDispatchCompute_spec)
  finally show ?thesis using i by (simp add: image_of_def)
qed

lemma wf_spec_next_generation: "0 \<le> W \<Longrightarrow> 0 \<le> H \<Longrightarrow> wf_image W H (spec_next_generation W H img)"
  by (simp add: spec_next_generation_def wf_mk_image)

lemma computeStep_ok_wf:
  assumes "wf_state W H s"
  shows "wf_state W H (computeStep W H GL_NO_ERROR s)"
proof -
  from assms obtain c n where i: "gl_textures s (current s) = Some c" "wf_image W H c"
    "gl_textures s (writable s) = Some n" "wf_image W H n" "current s \<noteq> writable s"
    by (rule wf_state_images)
  have nn: "0 \<le> W" "0 \<le> H" using i(2) by (simp_all add: wf_image_def)
  note st = computeStep_ok_store [OF assms]
  show ?thesis
    using assms nn
    by (cases rule: wf_state_cases [OF assms])
       (auto simp: wf_state_def has_image_def st computeStep_fields wf_spec_next_generation)
qed

lemma computeStep_ok_images:
  assumes "wf_state W H s"
  shows "image_of (computeStep W H GL_NO_ERROR s) (writable s) =
           spec_next_generation W H (image_of s (current s))"
    and "image_of (computeStep W H GL_NO_ERROR s) (current s) = image_of s (current s)"
proof -
  from assms obtain c n where i: "current s \<noteq> writable s"
    by (rule wf_state_images)
  show "image_of (computeStep W H GL_NO_ERROR s) (writable s) =
           spec_next_generation W H (image_of s (current s))"
    by (simp add: image_of_def computeStep_ok_store [OF assms])
  show "image_of (computeStep W H GL_NO_ERROR s) (current s) = image_of s (current s)"
    using i by (simp add: image_of_def computeStep_ok_store [OF assms])
qed

lemma computeStep_ok_logs:
  "cout (computeStep W H GL_NO_ERROR s) = cout s" "cerr (computeStep W H GL_NO_ERROR s) = cerr s"
  by (simp_all add: computeStep_def Let_def)

lemma spec_live_count_bounds: "0 \<le> spec_live_count W H img p" "spec_live_count W H img p \<le> 8"
proof -
  have "length (filter (\<lambda>q. spec_alive (texel img q)) (spec_neighbors W H p))
          \<le> length (spec_neighbors W H p)"
    by (rule length_filter_le)
  also have "\<dots> = 8" by (simp add: spec_neighbors_def)
  finally show "spec_live_count W H img p \<le> 8" by (simp add: spec_live_count_def)
  show "0 \<le> spec_live_count W H img p" by (simp add: spec_live_count_def)
qed

lemma wf_state_with:
  "wf_image W H a \<Longrightarrow> wf_image W H b \<Longrightarrow> wf_state W H (state_with a b)"
  by (simp add: wf_state_def state_with_def has_image_def)

lemma state_with_current:
  "current (state_with a b) = 1" "writable (state_with a b) = 2"
  "image_of (state_with a b) 1 = a" "image_of (state_with a b) 2 = b"
  by (simp_all add: state_with_def current_def writable_def image_of_def)

lemma wf_patterns:
  "0 \<le> W \<Longrightarrow> 0 \<le> H \<Longrightarrow> wf_image W H (blinker_h W H cx cy)"
  "0 \<le> W \<Longrightarrow> 0 \<le> H \<Longrightarrow> wf_image W H (blinker_v W H cx cy)"
  "0 \<le> W \<Longrightarrow> 0 \<le> H \<Longrightarrow> wf_image W H (block W H cx cy)"
  by (simp_all add: blinker_h_def blinker_v_def block_def product_pattern_def wf_mk_image)

lemma image_of_current_wf:
  assumes "wf_state W H s"
  shows "wf_image W H (image_of s (current s))"
proof -
  from assms obtain c where "gl_textures s (current s) = Some c" "wf_image W H c"
    by (rule wf_state_images)
  then show ?thesis by (simp add: image_of_def)
qed

section \<open>The rule, the neighbourhood and the buffer roles\<close>

text \<open>
  C1. For every cell \<open>p\<close> and every successful step: with \<open>n\<close> the kernel's live-neighbour
  count of \<open>p\<close> in the current grid (a number between 0 and 8), the cell \<open>p\<close> of the grid that
  is current after the step is ALIVE iff \<open>n\<close> is 2 or 3 when \<open>p\<close> was ALIVE, and ALIVE iff
  \<open>n\<close> is exactly 3 when \<open>p\<close> was DEAD; otherwise it is DEAD.
\<close>

theorem C1_rule_table:
  assumes "wf_state W H s" and "in_image (image_of s (current s)) p"
  shows "0 \<le> liveNeighbors (image_of s (current s)) p \<and>
         liveNeighbors (image_of s (current s)) p \<le> 8 \<and>
         texel (image_of (computeStep W H GL_NO_ERROR s) (current (computeStep W H GL_NO_ERROR s))) p =
           (if spec_alive (texel (image_of s (current s)) p)
            then (if liveNeighbors (image_of s (current s)) p = 2 \<or>
                     liveNeighbors (image_of s (current s)) p = 3 then ALIVE else DEAD)
            else (if liveNeighbors (image_of s (current s)) p = 3 then ALIVE else DEAD))"
proof -
  let ?cur = "image_of s (current s)"
  have wf: "wf_image W H ?cur" using assms(1) by (rule image_of_current_wf)
  obtain x y where p: "p = (x, y)" by (cases p)
  from assms(2) wf p have b: "0 \<le> x" "x < W" "0 \<le> y" "y < H"
    by (simp_all add: in_image_def wf_image_def)
  have n: "liveNeighbors ?cur p = spec_live_count W H ?cur p"
    using wf assms(2) by (rule liveNeighbors_spec)
  have "texel (image_of (computeStep W H GL_NO_ERROR s) (current (computeStep W H GL_NO_ERROR s))) p =
          texel (spec_next_generation W H ?cur) p"
    by (simp add: computeStep_roles [OF assms(1)] computeStep_ok_images [OF assms(1)])
  also have "\<dots> = spec_rule (spec_alive (texel ?cur p)) (spec_live_count W H ?cur p)"
    unfolding spec_next_generation_def p by (rule texel_mk_image [OF b])
  finally show ?thesis
    unfolding n using spec_live_count_bounds [of W H ?cur p] by (simp add: spec_rule_def)
qed

theorem C1_rule_table_witness:
  "wf_state 4 4 (state_with (blinker_h 4 4 1 1) (mk_image 4 4 (\<lambda>p. 7))) \<and>
   in_image (image_of (state_with (blinker_h 4 4 1 1) (mk_image 4 4 (\<lambda>p. 7)))
     (current (state_with (blinker_h 4 4 1 1) (mk_image 4 4 (\<lambda>p. 7))))) (1, 0) \<and>
   liveNeighbors (blinker_h 4 4 1 1) (1, 0) = 3 \<and>
   texel (image_of (computeStep 4 4 GL_NO_ERROR (state_with (blinker_h 4 4 1 1) (mk_image 4 4 (\<lambda>p. 7))))
     (current (computeStep 4 4 GL_NO_ERROR (state_with (blinker_h 4 4 1 1) (mk_image 4 4 (\<lambda>p. 7)))))) (1, 0)
     = ALIVE"
proof -
  let ?s = "state_with (blinker_h 4 4 1 1) (mk_image 4 4 (\<lambda>p. 7))"
  have wfb: "wf_image 4 4 (blinker_h 4 4 1 1)" by (simp add: wf_patterns)
  have h1: "wf_state 4 4 ?s" by (simp add: wf_state_with wf_patterns wf_mk_image)
  have cur: "image_of ?s (current ?s) = blinker_h 4 4 1 1" by (simp add: state_with_current)
  have h2: "in_image (image_of ?s (current ?s)) (1, 0)"
    using wfb unfolding cur by (simp add: in_image_def wf_image_def)
  have inb: "in_image (blinker_h 4 4 1 1) (1, 0)" using h2 cur by simp
  have t: "texel (blinker_h 4 4 1 1) (x, y) =
      (if y = 1 \<and> (x = 0 \<or> x = 1 \<or> x = 2) then ALIVE else DEAD)"
    if "0 \<le> x" "x < 4" "0 \<le> y" "y < 4" for x y
    unfolding blinker_h_def product_pattern_def texel_mk_image [OF that] by auto
  have n: "liveNeighbors (blinker_h 4 4 1 1) (1, 0) = 3"
    unfolding liveNeighbors_spec [OF wfb inb]
    by (simp add: spec_live_count_def spec_neighbors_def t spec_alive_def ALIVE_def DEAD_def)
  have d: "\<not> spec_alive (texel (blinker_h 4 4 1 1) (1, 0))"
    by (simp add: t spec_alive_def DEAD_def)
  show ?thesis
    using h1 h2 n d C1_rule_table [OF h1 h2] unfolding cur by simp
qed

text \<open>
  C2. For a cell \<open>p\<close> of a \<open>W \<times> H\<close> grid, the positions the kernel's two loops visit are, in
  order, the 8 positions \<open>(p + (dx, dy)) mod (W, H)\<close> for \<open>dx, dy\<close> in \<open>{-1, 0, 1}\<close> without
  \<open>(0, 0)\<close>, and the live-neighbour count the kernel uses is the number of ALIVE cells among
  them; the neighbours of \<open>(0, 0)\<close> at the offsets \<open>(-1, -1)\<close>, \<open>(-1, 0)\<close> and \<open>(0, -1)\<close> are
  \<open>(W - 1, H - 1)\<close>, \<open>(W - 1, 0)\<close> and \<open>(0, H - 1)\<close>.
\<close>

theorem C2_toroidal_neighbors:
  assumes "wf_image W H cur" and "in_image cur p"
  shows "map (\<lambda>d. neighborPos (imageSize cur) p (fst d) (snd d))
           [(-1, -1), (0, -1), (1, -1), (-1, 0), (1, 0), (-1, 1), (0, 1), (1, 1)]
           = spec_neighbors W H p \<and>
         length (spec_neighbors W H p) = 8 \<and>
         liveNeighbors cur p = spec_live_count W H cur p \<and>
         neighborPos (imageSize cur) (0, 0) (-1) (-1) = (W - 1, H - 1) \<and>
         neighborPos (imageSize cur) (0, 0) (-1) 0 = (W - 1, 0) \<and>
         neighborPos (imageSize cur) (0, 0) 0 (-1) = (0, H - 1) \<and>
         {(W - 1, H - 1), (W - 1, 0), (0, H - 1)} \<subseteq> set (spec_neighbors W H (0, 0))"
proof -
  obtain x y where p: "p = (x, y)" by (cases p)
  from assms p have b: "0 \<le> x" "x < W" "0 \<le> y" "y < H" and sz: "imageSize cur = (W, H)"
    by (simp_all add: in_image_def wf_image_def imageSize_def)
  have pos: "0 < W" "0 < H" using b by simp_all
  have np: "neighborPos (W, H) (x, y) dx dy = ((x + dx) mod W, (y + dy) mod H)"
    if "dx = -1 \<or> dx = 0 \<or> dx = 1" "dy = -1 \<or> dy = 0 \<or> dy = 1" for dx dy
    using that by (rule neighborPos_eq [OF b])
  have np0: "neighborPos (W, H) (0, 0) dx dy = ((0 + dx) mod W, (0 + dy) mod H)"
    if "dx = -1 \<or> dx = 0 \<or> dx = 1" "dy = -1 \<or> dy = 0 \<or> dy = 1" for dx dy
    using pos that by (intro neighborPos_eq) simp_all
  have m: "(- 1) mod W = W - 1" "(- 1) mod H = H - 1"
    using pos by (simp_all add: zmod_minus1)
  have 1: "map (\<lambda>d. neighborPos (imageSize cur) p (fst d) (snd d))
           [(-1, -1), (0, -1), (1, -1), (-1, 0), (1, 0), (-1, 1), (0, 1), (1, 1)]
           = spec_neighbors W H p"
    unfolding sz p spec_neighbors_def by (simp add: np)
  have 2: "length (spec_neighbors W H p) = 8" by (simp add: spec_neighbors_def)
  have 3: "liveNeighbors cur p = spec_live_count W H cur p"
    using assms by (rule liveNeighbors_spec)
  have 4: "neighborPos (imageSize cur) (0, 0) (-1) (-1) = (W - 1, H - 1)"
    "neighborPos (imageSize cur) (0, 0) (-1) 0 = (W - 1, 0)"
    "neighborPos (imageSize cur) (0, 0) 0 (-1) = (0, H - 1)"
    unfolding sz using pos by (simp_all add: np0 m)
  have 5: "{(W - 1, H - 1), (W - 1, 0), (0, H - 1)} \<subseteq> set (spec_neighbors W H (0, 0))"
    using pos by (simp add: spec_neighbors_def m)
  from 1 2 3 4 5 show ?thesis by blast
qed

theorem C2_toroidal_neighbors_witness:
  "wf_image 4 4 (blinker_h 4 4 1 1) \<and> in_image (blinker_h 4 4 1 1) (0, 3) \<and>
   spec_neighbors 4 4 (0, 3) = [(3, 2), (0, 2), (1, 2), (3, 3), (1, 3), (3, 0), (0, 0), (1, 0)] \<and>
   liveNeighbors (blinker_h 4 4 1 1) (0, 3) = spec_live_count 4 4 (blinker_h 4 4 1 1) (0, 3) \<and>
   neighborPos (imageSize (blinker_h 4 4 1 1)) (0, 0) (-1) (-1) = (3, 3)"
proof -
  have h1: "wf_image 4 4 (blinker_h 4 4 1 1)" by (simp add: wf_patterns)
  have h2: "in_image (blinker_h 4 4 1 1) (0, 3)"
    using h1 by (simp add: in_image_def wf_image_def)
  have "spec_neighbors 4 4 (0, 3) = [(3, 2), (0, 2), (1, 2), (3, 3), (1, 3), (3, 0), (0, 0), (1, 0)]"
    by (simp add: spec_neighbors_def)
  then show ?thesis
    using h1 h2 C2_toroidal_neighbors [OF h1 h2] by simp
qed

text \<open>
  C4. For every successful step from any well-formed state: afterwards the previously
  writable texture holds the next generation that the rule computes from the previously
  current texture, \<open>current\<close> names that texture and \<open>writable\<close> names the previously current
  one; no other texture object has changed, the array of names is the same, and the
  swap is the flip of the index.
\<close>

theorem C4_buffer_roles:
  assumes "wf_state W H s"
  shows "image_of (computeStep W H GL_NO_ERROR s) (writable s) =
           spec_next_generation W H (image_of s (current s)) \<and>
         current (computeStep W H GL_NO_ERROR s) = writable s \<and>
         writable (computeStep W H GL_NO_ERROR s) = current s \<and>
         image_of (computeStep W H GL_NO_ERROR s) (current s) = image_of s (current s) \<and>
         gl_textures (computeStep W H GL_NO_ERROR s) =
           (gl_textures s)(writable s \<mapsto> spec_next_generation W H (image_of s (current s))) \<and>
         textures (computeStep W H GL_NO_ERROR s) = textures s \<and>
         currentTextureIdx (computeStep W H GL_NO_ERROR s) = 1 - currentTextureIdx s \<and>
         wf_state W H (computeStep W H GL_NO_ERROR s)"
  using computeStep_ok_images [OF assms] computeStep_roles [OF assms, of GL_NO_ERROR]
    computeStep_ok_store [OF assms] computeStep_ok_wf [OF assms]
    computeStep_fields [of W H GL_NO_ERROR s]
  by simp

theorem C4_buffer_roles_witness:
  "wf_state 4 4 (state_with (blinker_h 4 4 1 1) (mk_image 4 4 (\<lambda>p. 7))) \<and>
   image_of (computeStep 4 4 GL_NO_ERROR (state_with (blinker_h 4 4 1 1) (mk_image 4 4 (\<lambda>p. 7)))) 2 =
     spec_next_generation 4 4 (blinker_h 4 4 1 1) \<and>
   current (computeStep 4 4 GL_NO_ERROR (state_with (blinker_h 4 4 1 1) (mk_image 4 4 (\<lambda>p. 7)))) = 2 \<and>
   writable (computeStep 4 4 GL_NO_ERROR (state_with (blinker_h 4 4 1 1) (mk_image 4 4 (\<lambda>p. 7)))) = 1"
proof -
  let ?s = "state_with (blinker_h 4 4 1 1) (mk_image 4 4 (\<lambda>p. 7))"
  have h1: "wf_state 4 4 ?s" by (simp add: wf_state_with wf_patterns wf_mk_image)
  show ?thesis
    using h1 C4_buffer_roles [OF h1] by (simp add: state_with_current)
qed

section \<open>A step whose dispatch fails\<close>

lemma computeStep_err_store:
  "err \<noteq> GL_NO_ERROR \<Longrightarrow> gl_textures (computeStep W H err s) = gl_textures s"
  by (simp add: computeStep_def Let_def)

lemma computeStep_err_logs:
  assumes "err \<noteq> GL_NO_ERROR"
  shows "cerr (computeStep W H err s) = cerr s @ [Error_After_glDispatchCompute err]"
    and "cout (computeStep W H err s) = cout s @ [Compute_Reading_Writing (current s) (writable s)]"
  using assms by (simp_all add: computeStep_def Let_def current_def writable_def)

text \<open>
  C3 as stated fails: with a dispatch error the step is not a no-op, the index is flipped
  all the same and the other texture becomes the current grid. Here the current grid is one
  ALIVE cell, the other texture holds a DEAD cell, and \<^verbatim>\<open>glGetError\<close> returns
  \<^verbatim>\<open>GL_INVALID_OPERATION\<close> (1282).
\<close>

theorem C3_failed_step_not_noop:
  "wf_state 1 1 (state_with (mk_image 1 1 (\<lambda>p. ALIVE)) (mk_image 1 1 (\<lambda>p. DEAD))) \<and>
   (1282 :: GLenum) \<noteq> GL_NO_ERROR \<and>
   current (computeStep 1 1 1282 (state_with (mk_image 1 1 (\<lambda>p. ALIVE)) (mk_image 1 1 (\<lambda>p. DEAD))))
     \<noteq> current (state_with (mk_image 1 1 (\<lambda>p. ALIVE)) (mk_image 1 1 (\<lambda>p. DEAD))) \<and>
   texel (image_of (computeStep 1 1 1282 (state_with (mk_image 1 1 (\<lambda>p. ALIVE)) (mk_image 1 1 (\<lambda>p. DEAD))))
            (current (computeStep 1 1 1282 (state_with (mk_image 1 1 (\<lambda>p. ALIVE)) (mk_image 1 1 (\<lambda>p. DEAD)))))) (0, 0)
     = DEAD \<and>
   texel (image_of (state_with (mk_image 1 1 (\<lambda>p. ALIVE)) (mk_image 1 1 (\<lambda>p. DEAD)))
            (current (state_with (mk_image 1 1 (\<lambda>p. ALIVE)) (mk_image 1 1 (\<lambda>p. DEAD))))) (0, 0)
     = ALIVE \<and>
   ALIVE \<noteq> DEAD"
proof -
  let ?s = "state_with (mk_image 1 1 (\<lambda>p. ALIVE)) (mk_image 1 1 (\<lambda>p. DEAD))"
  have h1: "wf_state 1 1 ?s" by (simp add: wf_state_with wf_mk_image)
  have e: "(1282 :: GLenum) \<noteq> GL_NO_ERROR" by (simp add: GL_NO_ERROR_def)
  have c: "current (computeStep 1 1 1282 ?s) = 2"
    by (simp add: computeStep_roles [OF h1] state_with_current)
  have i: "image_of (computeStep 1 1 1282 ?s) 2 = mk_image 1 1 (\<lambda>p. DEAD)"
    by (simp add: image_of_def computeStep_err_store [OF e] state_with_def)
  have t: "texel (mk_image 1 1 f) (0, 0) = f (0, 0)" for f :: "ivec2 \<Rightarrow> GLubyte"
    by (rule texel_mk_image) simp_all
  have 1: "current (computeStep 1 1 1282 ?s) \<noteq> current ?s"
    unfolding c by (simp add: state_with_current)
  have 2: "texel (image_of (computeStep 1 1 1282 ?s) (current (computeStep 1 1 1282 ?s))) (0, 0) = DEAD"
    unfolding c i by (simp add: t)
  have 3: "texel (image_of ?s (current ?s)) (0, 0) = ALIVE"
    by (simp add: state_with_current t)
  have 4: "ALIVE \<noteq> DEAD" by (simp add: ALIVE_def DEAD_def)
  from h1 e 1 2 3 4 show ?thesis by blast
qed

text \<open>
  C3 as amended. When \<^verbatim>\<open>glGetError\<close> reports an error after the dispatch, \<^verbatim>\<open>computeStep\<close>
  returns (no crash), appends the error to \<^verbatim>\<open>std::cerr\<close> and the pair of texture names to
  \<^verbatim>\<open>std::cout\<close>, and leaves every texture object and the array of names as they were; the
  index is flipped as in a successful step, so the previously writable texture, with its old
  contents, is the current grid afterwards.
\<close>

theorem C3_failed_step:
  assumes "wf_state W H s" and "err \<noteq> GL_NO_ERROR"
  shows "gl_textures (computeStep W H err s) = gl_textures s \<and>
         textures (computeStep W H err s) = textures s \<and>
         cerr (computeStep W H err s) = cerr s @ [Error_After_glDispatchCompute err] \<and>
         cout (computeStep W H err s) = cout s @ [Compute_Reading_Writing (current s) (writable s)] \<and>
         currentTextureIdx (computeStep W H err s) = 1 - currentTextureIdx s \<and>
         current (computeStep W H err s) = writable s \<and>
         writable (computeStep W H err s) = current s \<and>
         image_of (computeStep W H err s) (current (computeStep W H err s)) = image_of s (writable s) \<and>
         wf_state W H (computeStep W H err s)"
proof -
  note st = computeStep_err_store [OF assms(2), of W H s]
  note r = computeStep_roles [OF assms(1), of err]
  have "wf_state W H (computeStep W H err s)"
    using assms(1)
    by (cases rule: wf_state_cases [OF assms(1)])
       (auto simp: wf_state_def has_image_def st computeStep_fields)
  then show ?thesis
    using st r computeStep_err_logs [OF assms(2), of W H s] computeStep_fields [of W H err s]
    by (simp add: image_of_def)
qed

theorem C3_failed_step_witness:
  "wf_state 1 1 (state_with (mk_image 1 1 (\<lambda>p. ALIVE)) (mk_image 1 1 (\<lambda>p. DEAD))) \<and>
   (1282 :: GLenum) \<noteq> GL_NO_ERROR \<and>
   cerr (computeStep 1 1 1282 (state_with (mk_image 1 1 (\<lambda>p. ALIVE)) (mk_image 1 1 (\<lambda>p. DEAD))))
     = [Error_After_glDispatchCompute 1282] \<and>
   cout (computeStep 1 1 1282 (state_with (mk_image 1 1 (\<lambda>p. ALIVE)) (mk_image 1 1 (\<lambda>p. DEAD))))
     = [Compute_Reading_Writing 1 2] \<and>
   current (computeStep 1 1 1282 (state_with (mk_image 1 1 (\<lambda>p. ALIVE)) (mk_image 1 1 (\<lambda>p. DEAD)))) = 2 \<and>
   gl_textures (computeStep 1 1 1282 (state_with (mk_image 1 1 (\<lambda>p. ALIVE)) (mk_image 1 1 (\<lambda>p. DEAD))))
     = gl_textures (state_with (mk_image 1 1 (\<lambda>p. ALIVE)) (mk_image 1 1 (\<lambda>p. DEAD)))"
proof -
  let ?s = "state_with (mk_image 1 1 (\<lambda>p. ALIVE)) (mk_image 1 1 (\<lambda>p. DEAD))"
  have h1: "wf_state 1 1 ?s" by (simp add: wf_state_with wf_mk_image)
  have h2: "(1282 :: GLenum) \<noteq> GL_NO_ERROR" by (simp add: GL_NO_ERROR_def)
  have l: "cerr ?s = []" "cout ?s = []" by (simp_all add: state_with_def)
  show ?thesis
    using h1 h2 C3_failed_step [OF h1 h2] by (simp add: state_with_current l)
qed

section \<open>Blinker and block on the torus\<close>

lemma wrap_succ:
  "0 \<le> x \<Longrightarrow> x < W \<Longrightarrow> (x + 1) mod W = (if x = W - 1 then 0 else x + 1)" for x W :: int
  by (auto simp: mod_pos_pos_trivial)

lemma wrap_pred:
  "0 \<le> x \<Longrightarrow> x < W \<Longrightarrow> (x - 1) mod W = (if x = 0 then W - 1 else x - 1)" for x W :: int
  by (auto simp: mod_pos_pos_trivial zmod_minus1)

lemma thin_count:
  fixes x c W :: int
  assumes "3 \<le> W" "0 \<le> x" "x < W" "0 \<le> c" "c < W"
  shows "of_bool ((x - 1) mod W = c) + of_bool (x = c) + of_bool ((x + 1) mod W = c) =
           (of_bool (x = (c - 1) mod W \<or> x = c \<or> x = (c + 1) mod W) :: int)"
  using assms
  by (simp only: wrap_succ [OF assms(2,3)] wrap_pred [OF assms(2,3)] wrap_succ [OF assms(4,5)] wrap_pred [OF assms(4,5)])
     (auto split: if_splits)

lemma thick_count:
  fixes x c W :: int
  assumes "4 \<le> W" "0 \<le> x" "x < W" "0 \<le> c" "c < W"
  defines "T \<equiv> (\<lambda>z. z = (c - 1) mod W \<or> z = c \<or> z = (c + 1) mod W)"
  defines "n \<equiv> (of_bool (T ((x - 1) mod W)) + of_bool (T x) + of_bool (T ((x + 1) mod W)) :: int)"
  shows "x = c \<Longrightarrow> n = 3" "x \<noteq> c \<Longrightarrow> n \<le> 2" "T x \<Longrightarrow> x \<noteq> c \<Longrightarrow> n = 2" "0 \<le> n"
proof -
  define px sx pc sc where "px = (x - 1) mod W" and "sx = (x + 1) mod W"
    and "pc = (c - 1) mod W" and "sc = (c + 1) mod W"
  have px: "px = (if x = 0 then W - 1 else x - 1)" and sx: "sx = (if x = W - 1 then 0 else x + 1)"
    unfolding px_def sx_def using assms(2,3) by (simp_all only: wrap_pred wrap_succ)
  have pc: "pc = (if c = 0 then W - 1 else c - 1)" and sc: "sc = (if c = W - 1 then 0 else c + 1)"
    unfolding pc_def sc_def using assms(4,5) by (simp_all only: wrap_pred wrap_succ)
  have n: "n = of_bool (px = pc \<or> px = c \<or> px = sc) + of_bool (x = pc \<or> x = c \<or> x = sc)
             + of_bool (sx = pc \<or> sx = c \<or> sx = sc)"
    unfolding n_def T_def px_def sx_def pc_def sc_def ..
  have Tx: "T x \<longleftrightarrow> x = pc \<or> x = c \<or> x = sc" unfolding T_def pc_def sc_def ..
  have a: "px = pc \<longleftrightarrow> x = c" "sx = sc \<longleftrightarrow> x = c" "px = c \<longleftrightarrow> x = sc" "sx = c \<longleftrightarrow> x = pc"
    using assms(1-5) unfolding px sx pc sc by (auto split: if_splits)
  have b: "x \<noteq> pc \<or> x \<noteq> sc" "x = sc \<Longrightarrow> sx \<noteq> pc" "x = pc \<Longrightarrow> px \<noteq> sc"
    "x \<noteq> c \<or> x \<noteq> sc" "x \<noteq> c \<or> x \<noteq> pc"
    using assms(1-5) unfolding px sx pc sc by (auto split: if_splits)
  show "x = c \<Longrightarrow> n = 3" unfolding n using a by simp
  show "0 \<le> n" unfolding n by simp
  show "T x \<Longrightarrow> x \<noteq> c \<Longrightarrow> n = 2" unfolding n Tx a using b by auto
  show "x \<noteq> c \<Longrightarrow> n \<le> 2" unfolding n a using b by (auto simp: of_bool_def)
qed


lemma pair_count:
  fixes x c W :: int
  assumes "3 \<le> W" "0 \<le> x" "x < W" "0 \<le> c" "c < W"
  defines "P \<equiv> (\<lambda>z. z = c \<or> z = (c + 1) mod W)"
  defines "n \<equiv> (of_bool (P ((x - 1) mod W)) + of_bool (P x) + of_bool (P ((x + 1) mod W)) :: int)"
  shows "P x \<Longrightarrow> n = 2" "n \<le> 2" "0 \<le> n"
proof -
  define px sx sc where "px = (x - 1) mod W" and "sx = (x + 1) mod W" and "sc = (c + 1) mod W"
  have px: "px = (if x = 0 then W - 1 else x - 1)" and sx: "sx = (if x = W - 1 then 0 else x + 1)"
    unfolding px_def sx_def using assms(2,3) by (simp_all only: wrap_pred wrap_succ)
  have sc: "sc = (if c = W - 1 then 0 else c + 1)"
    unfolding sc_def using assms(4,5) by (simp only: wrap_succ)
  have n: "n = of_bool (px = c \<or> px = sc) + of_bool (x = c \<or> x = sc) + of_bool (sx = c \<or> sx = sc)"
    unfolding n_def P_def px_def sx_def sc_def ..
  have Px: "P x \<longleftrightarrow> x = c \<or> x = sc" unfolding P_def sc_def ..
  have a: "px = c \<longleftrightarrow> x = sc" "sx = sc \<longleftrightarrow> x = c"
    using assms(1-5) unfolding px sx sc by (auto split: if_splits)
  have b: "x = c \<Longrightarrow> px \<noteq> sc" "x = sc \<Longrightarrow> sx \<noteq> c" "c \<noteq> sc"
    using assms(1-5) unfolding px sx sc by (auto split: if_splits)
  show 2: "P x \<Longrightarrow> n = 2" unfolding n Px a using b by auto
  show "0 \<le> n" unfolding n by simp
  show "n \<le> 2"
  proof (cases "P x")
    case True then show ?thesis using 2 by simp
  next
    case False then show ?thesis unfolding n Px by (simp add: of_bool_def)
  qed
qed

lemma length_filter_of_bool:
  "int (length (filter P xs)) = sum_list (map (\<lambda>q. of_bool (P q)) xs)"
  by (induction xs) simp_all

lemma wf_product_pattern: "0 \<le> W \<Longrightarrow> 0 \<le> H \<Longrightarrow> wf_image W H (product_pattern W H A B)"
  by (simp add: product_pattern_def wf_mk_image)

lemma live_count_product:
  assumes "0 \<le> x" "x < W" "0 \<le> y" "y < H"
  shows "spec_live_count W H (product_pattern W H A B) (x, y) =
           (of_bool (A ((x - 1) mod W)) + of_bool (A x) + of_bool (A ((x + 1) mod W))) *
           (of_bool (B ((y - 1) mod H)) + of_bool (B y) + of_bool (B ((y + 1) mod H)))
           - of_bool (A x \<and> B y)"
proof -
  have pos: "0 < W" "0 < H" using assms by simp_all
  have t: "spec_alive (texel (product_pattern W H A B) (u mod W, v mod H)) =
             (A (u mod W) \<and> B (v mod H))" for u v
  proof -
    have "texel (product_pattern W H A B) (u mod W, v mod H) =
            (if A (u mod W) \<and> B (v mod H) then ALIVE else DEAD)"
      unfolding product_pattern_def using pos by (subst texel_mk_image) simp_all
    then show ?thesis by (simp add: spec_alive_def ALIVE_def DEAD_def)
  qed
  have m: "x mod W = x" "y mod H = y" using assms by simp_all
  have "spec_live_count W H (product_pattern W H A B) (x, y) =
      of_bool (A ((x - 1) mod W) \<and> B ((y - 1) mod H)) + of_bool (A (x mod W) \<and> B ((y - 1) mod H)) +
      of_bool (A ((x + 1) mod W) \<and> B ((y - 1) mod H)) + of_bool (A ((x - 1) mod W) \<and> B (y mod H)) +
      of_bool (A ((x + 1) mod W) \<and> B (y mod H)) + of_bool (A ((x - 1) mod W) \<and> B ((y + 1) mod H)) +
      of_bool (A (x mod W) \<and> B ((y + 1) mod H)) + of_bool (A ((x + 1) mod W) \<and> B ((y + 1) mod H))"
    unfolding spec_live_count_def spec_neighbors_def length_filter_of_bool
    by (simp add: t add.assoc del: of_bool_conj)
  then show ?thesis
    unfolding m by (simp add: of_bool_conj algebra_simps)
qed

lemma next_generation_product:
  assumes "0 \<le> x" "x < W" "0 \<le> y" "y < H"
  shows "texel (spec_next_generation W H (product_pattern W H A B)) (x, y) =
           spec_rule (A x \<and> B y)
             ((of_bool (A ((x - 1) mod W)) + of_bool (A x) + of_bool (A ((x + 1) mod W))) *
              (of_bool (B ((y - 1) mod H)) + of_bool (B y) + of_bool (B ((y + 1) mod H)))
              - of_bool (A x \<and> B y))"
proof -
  have "texel (product_pattern W H A B) (x, y) = (if A x \<and> B y then ALIVE else DEAD)"
    unfolding product_pattern_def texel_mk_image [OF assms] by simp
  then have "spec_alive (texel (product_pattern W H A B) (x, y)) = (A x \<and> B y)"
    by (simp add: spec_alive_def ALIVE_def DEAD_def)
  then show ?thesis
    unfolding spec_next_generation_def texel_mk_image [OF assms] live_count_product [OF assms]
    by simp
qed

lemma texel_product_pattern:
  assumes "0 \<le> x" "x < W" "0 \<le> y" "y < H"
  shows "texel (product_pattern W H A B) (x, y) = (if A x \<and> B y then ALIVE else DEAD)"
  unfolding product_pattern_def texel_mk_image [OF assms] by simp

lemma ALIVE_neq_DEAD: "ALIVE \<noteq> DEAD"
  by (simp add: ALIVE_def DEAD_def)

lemma step_blinker_h:
  assumes "4 \<le> W" "4 \<le> H" "0 \<le> cx" "cx < W" "0 \<le> cy" "cy < H"
  shows "spec_next_generation W H (blinker_h W H cx cy) = blinker_v W H cx cy"
proof (rule image_eqI [where W = W and H = H])
  show "wf_image W H (spec_next_generation W H (blinker_h W H cx cy))"
    using assms by (intro wf_spec_next_generation) simp_all
  show "wf_image W H (blinker_v W H cx cy)" using assms by (intro wf_patterns) simp_all
next
  fix x y assume b: "0 \<le> x" "x < W" "0 \<le> y" "y < H"
  define T where "T = (\<lambda>z. z = (cx - 1) mod W \<or> z = cx \<or> z = (cx + 1) mod W)"
  define n where "n = (of_bool (T ((x - 1) mod W)) + of_bool (T x) + of_bool (T ((x + 1) mod W)) :: int)"
  define U where "U = (y = (cy - 1) mod H \<or> y = cy \<or> y = (cy + 1) mod H)"
  have H3: "3 \<le> H" using assms by simp
  have m: "of_bool ((y - 1) mod H = cy) + of_bool (y = cy) + of_bool ((y + 1) mod H = cy) = (of_bool U :: int)"
    unfolding U_def by (rule thin_count [OF H3 b(3,4) assms(5,6)])
  have tc: "x = cx \<Longrightarrow> n = 3" "x \<noteq> cx \<Longrightarrow> n \<le> 2" "T x \<Longrightarrow> x \<noteq> cx \<Longrightarrow> n = 2" "0 \<le> n"
    unfolding n_def T_def by (fact thick_count [OF assms(1) b(1,2) assms(3,4)])+
  have l: "texel (spec_next_generation W H (blinker_h W H cx cy)) (x, y) =
             spec_rule (T x \<and> y = cy) (n * of_bool U - of_bool (T x \<and> y = cy))"
    unfolding blinker_h_def next_generation_product [OF b] m T_def n_def ..
  have r: "texel (blinker_v W H cx cy) (x, y) = (if x = cx \<and> U then ALIVE else DEAD)"
    unfolding blinker_v_def texel_product_pattern [OF b] U_def ..
  have Tc: "T cx" unfolding T_def by simp
  have Uc: "y = cy \<Longrightarrow> U" unfolding U_def by simp
  show "texel (spec_next_generation W H (blinker_h W H cx cy)) (x, y) = texel (blinker_v W H cx cy) (x, y)"
  proof (cases "x = cx")
    case True
    with tc(1) have "n = 3" by blast
    with True Tc Uc show ?thesis unfolding l r by (auto simp: spec_rule_def)
  next
    case False
    with tc have n2: "n \<le> 2" "0 \<le> n" "T x \<Longrightarrow> n = 2" by blast+
    show ?thesis
    proof (cases "T x \<and> y = cy")
      case True
      with n2 Uc have "n * of_bool U - of_bool (T x \<and> y = cy) = 1" by simp
      with True False show ?thesis unfolding l r by (simp add: spec_rule_def)
    next
      case F: False
      have ne: "n * of_bool U \<noteq> 3" using n2 by (cases U) simp_all
      have F': "(T x \<and> y = cy) = False" using F by simp
      show ?thesis unfolding l r F' using False ne by (simp add: spec_rule_def)
    qed
  qed
qed

lemma step_blinker_v:
  assumes "4 \<le> W" "4 \<le> H" "0 \<le> cx" "cx < W" "0 \<le> cy" "cy < H"
  shows "spec_next_generation W H (blinker_v W H cx cy) = blinker_h W H cx cy"
proof (rule image_eqI [where W = W and H = H])
  show "wf_image W H (spec_next_generation W H (blinker_v W H cx cy))"
    using assms by (intro wf_spec_next_generation) simp_all
  show "wf_image W H (blinker_h W H cx cy)" using assms by (intro wf_patterns) simp_all
next
  fix x y assume b: "0 \<le> x" "x < W" "0 \<le> y" "y < H"
  define T where "T = (\<lambda>z. z = (cy - 1) mod H \<or> z = cy \<or> z = (cy + 1) mod H)"
  define n where "n = (of_bool (T ((y - 1) mod H)) + of_bool (T y) + of_bool (T ((y + 1) mod H)) :: int)"
  define U where "U = (x = (cx - 1) mod W \<or> x = cx \<or> x = (cx + 1) mod W)"
  have W3: "3 \<le> W" using assms by simp
  have m: "of_bool ((x - 1) mod W = cx) + of_bool (x = cx) + of_bool ((x + 1) mod W = cx) = (of_bool U :: int)"
    unfolding U_def by (rule thin_count [OF W3 b(1,2) assms(3,4)])
  have tc: "y = cy \<Longrightarrow> n = 3" "y \<noteq> cy \<Longrightarrow> n \<le> 2" "T y \<Longrightarrow> y \<noteq> cy \<Longrightarrow> n = 2" "0 \<le> n"
    unfolding n_def T_def by (fact thick_count [OF assms(2) b(3,4) assms(5,6)])+
  have l: "texel (spec_next_generation W H (blinker_v W H cx cy)) (x, y) =
             spec_rule (x = cx \<and> T y) (of_bool U * n - of_bool (x = cx \<and> T y))"
    unfolding blinker_v_def next_generation_product [OF b] m T_def n_def ..
  have r: "texel (blinker_h W H cx cy) (x, y) = (if U \<and> y = cy then ALIVE else DEAD)"
    unfolding blinker_h_def texel_product_pattern [OF b] U_def ..
  have Tc: "T cy" unfolding T_def by simp
  have Uc: "x = cx \<Longrightarrow> U" unfolding U_def by simp
  show "texel (spec_next_generation W H (blinker_v W H cx cy)) (x, y) = texel (blinker_h W H cx cy) (x, y)"
  proof (cases "y = cy")
    case True
    with tc(1) have "n = 3" by blast
    with True Tc Uc show ?thesis unfolding l r by (auto simp: spec_rule_def)
  next
    case False
    with tc have n2: "n \<le> 2" "0 \<le> n" "T y \<Longrightarrow> n = 2" by blast+
    show ?thesis
    proof (cases "x = cx \<and> T y")
      case True
      with n2 Uc have "of_bool U * n - of_bool (x = cx \<and> T y) = 1" by simp
      with True False show ?thesis unfolding l r by (simp add: spec_rule_def)
    next
      case F: False
      have ne: "of_bool U * n \<noteq> 3" using n2 by (cases U) simp_all
      have F': "(x = cx \<and> T y) = False" using F by simp
      show ?thesis unfolding l r F' using False ne by (simp add: spec_rule_def)
    qed
  qed
qed

lemma step_block:
  assumes "3 \<le> W" "3 \<le> H" "0 \<le> cx" "cx < W" "0 \<le> cy" "cy < H"
  shows "spec_next_generation W H (block W H cx cy) = block W H cx cy"
proof (rule image_eqI [where W = W and H = H])
  show "wf_image W H (spec_next_generation W H (block W H cx cy))"
    using assms by (intro wf_spec_next_generation) simp_all
  show "wf_image W H (block W H cx cy)" using assms by (intro wf_patterns) simp_all
next
  fix x y assume b: "0 \<le> x" "x < W" "0 \<le> y" "y < H"
  define P where "P = (\<lambda>z. z = cx \<or> z = (cx + 1) mod W)"
  define Q where "Q = (\<lambda>z. z = cy \<or> z = (cy + 1) mod H)"
  define n where "n = (of_bool (P ((x - 1) mod W)) + of_bool (P x) + of_bool (P ((x + 1) mod W)) :: int)"
  define k where "k = (of_bool (Q ((y - 1) mod H)) + of_bool (Q y) + of_bool (Q ((y + 1) mod H)) :: int)"
  have pn: "P x \<Longrightarrow> n = 2" "n \<le> 2" "0 \<le> n"
    unfolding n_def P_def by (fact pair_count [OF assms(1) b(1,2) assms(3,4)])+
  have pk: "Q y \<Longrightarrow> k = 2" "k \<le> 2" "0 \<le> k"
    unfolding k_def Q_def by (fact pair_count [OF assms(2) b(3,4) assms(5,6)])+
  have l: "texel (spec_next_generation W H (block W H cx cy)) (x, y) =
             spec_rule (P x \<and> Q y) (n * k - of_bool (P x \<and> Q y))"
    unfolding block_def next_generation_product [OF b] P_def Q_def n_def k_def ..
  have r: "texel (block W H cx cy) (x, y) = (if P x \<and> Q y then ALIVE else DEAD)"
    unfolding block_def texel_product_pattern [OF b] P_def Q_def ..
  show "texel (spec_next_generation W H (block W H cx cy)) (x, y) = texel (block W H cx cy) (x, y)"
  proof (cases "P x \<and> Q y")
    case True
    with pn(1) pk(1) have "n = 2" "k = 2" by blast+
    with True have "n * k - of_bool (P x \<and> Q y) = 3" by simp
    with True show ?thesis unfolding l r by (simp add: spec_rule_def)
  next
    case False
    then have F': "(P x \<and> Q y) = False" by simp
    have ne: "n * k \<noteq> 3"
    proof
      assume e: "n * k = 3"
      have "n = 0 \<or> n = 1 \<or> n = 2" using pn(2,3) by arith
      moreover have "k = 0 \<or> k = 1 \<or> k = 2" using pk(2,3) by arith
      ultimately show False using e by auto
    qed
    show ?thesis unfolding l r F' using ne by (simp add: spec_rule_def)
  qed
qed

lemma one_step:
  assumes "wf_state W H s"
  shows "image_of (computeStep W H GL_NO_ERROR s) (current (computeStep W H GL_NO_ERROR s)) =
           spec_next_generation W H (image_of s (current s))"
  by (simp add: computeStep_roles [OF assms] computeStep_ok_images [OF assms])

lemma two_steps:
  assumes "wf_state W H s"
  shows "image_of (computeStep W H GL_NO_ERROR (computeStep W H GL_NO_ERROR s))
            (current (computeStep W H GL_NO_ERROR (computeStep W H GL_NO_ERROR s))) =
           spec_next_generation W H (spec_next_generation W H (image_of s (current s)))"
  using one_step [OF computeStep_ok_wf [OF assms]] one_step [OF assms] by simp

lemma blinker_turned_neq:
  assumes "4 \<le> W" "4 \<le> H" "0 \<le> cx" "cx < W" "0 \<le> cy" "cy < H"
  shows "blinker_v W H cx cy \<noteq> blinker_h W H cx cy"
proof
  assume e: "blinker_v W H cx cy = blinker_h W H cx cy"
  let ?x = "(cx + 1) mod W"
  have b: "0 \<le> ?x" "?x < W" using assms by simp_all
  have ne: "?x \<noteq> cx" using assms(1,3,4) by (simp add: wrap_succ)
  have "texel (blinker_v W H cx cy) (?x, cy) = DEAD"
    unfolding blinker_v_def texel_product_pattern [OF b assms(5,6)] using ne by simp
  moreover have "texel (blinker_h W H cx cy) (?x, cy) = ALIVE"
    unfolding blinker_h_def texel_product_pattern [OF b assms(5,6)] by simp
  ultimately show False using e ALIVE_neq_DEAD by simp
qed

text \<open>On every grid of at least 4 x 4 cells a successful step turns a blinker into the
  blinker of the other orientation with the same centre, a different grid, and a second
  successful step turns it back.\<close>

lemma blinker_period_2:
  assumes "wf_state W H s" and "4 \<le> W" and "4 \<le> H"
    and "0 \<le> cx" and "cx < W" and "0 \<le> cy" and "cy < H"
    and "image_of s (current s) = blinker ori W H cx cy"
  shows "image_of (computeStep W H GL_NO_ERROR s) (current (computeStep W H GL_NO_ERROR s)) =
           blinker (turned ori) W H cx cy \<and>
         blinker (turned ori) W H cx cy \<noteq> blinker ori W H cx cy \<and>
         image_of (computeStep W H GL_NO_ERROR (computeStep W H GL_NO_ERROR s))
            (current (computeStep W H GL_NO_ERROR (computeStep W H GL_NO_ERROR s))) =
           blinker ori W H cx cy"
proof -
  note h = step_blinker_h [OF assms(2-7)] and v = step_blinker_v [OF assms(2-7)]
  note ne = blinker_turned_neq [OF assms(2-7)]
  show ?thesis
    unfolding one_step [OF assms(1)] two_steps [OF assms(1)] assms(8)
    using h v ne by (cases ori) auto
qed

text \<open>
  C7. On a grid of at least 3 x 3 cells, for a 2 x 2 block of ALIVE cells at any position
  (wrapping included) with every other cell DEAD, one successful step leaves the current
  grid equal to the block: the block is a fixed point of the step.
\<close>

theorem C7_block_still_life:
  assumes "wf_state W H s" and "3 \<le> W" and "3 \<le> H"
    and "0 \<le> cx" and "cx < W" and "0 \<le> cy" and "cy < H"
    and "image_of s (current s) = block W H cx cy"
  shows "image_of (computeStep W H GL_NO_ERROR s) (current (computeStep W H GL_NO_ERROR s)) =
           block W H cx cy"
  unfolding one_step [OF assms(1)] assms(8) by (rule step_block [OF assms(2-7)])

theorem C7_block_still_life_witness:
  "wf_state 4 4 (state_with (block 4 4 3 1) (mk_image 4 4 (\<lambda>p. 7))) \<and>
   (3 :: int) \<le> 4 \<and> (0 :: int) \<le> 3 \<and> (3 :: int) < 4 \<and> (0 :: int) \<le> 1 \<and> (1 :: int) < 4 \<and>
   image_of (state_with (block 4 4 3 1) (mk_image 4 4 (\<lambda>p. 7)))
     (current (state_with (block 4 4 3 1) (mk_image 4 4 (\<lambda>p. 7)))) = block 4 4 3 1 \<and>
   image_of (computeStep 4 4 GL_NO_ERROR (state_with (block 4 4 3 1) (mk_image 4 4 (\<lambda>p. 7))))
     (current (computeStep 4 4 GL_NO_ERROR (state_with (block 4 4 3 1) (mk_image 4 4 (\<lambda>p. 7))))) =
     block 4 4 3 1"
proof -
  let ?s = "state_with (block 4 4 3 1) (mk_image 4 4 (\<lambda>p. 7))"
  have h1: "wf_state 4 4 ?s" by (simp add: wf_state_with wf_patterns wf_mk_image)
  have h8: "image_of ?s (current ?s) = block 4 4 3 1" by (simp add: state_with_current)
  have "image_of (computeStep 4 4 GL_NO_ERROR ?s) (current (computeStep 4 4 GL_NO_ERROR ?s)) = block 4 4 3 1"
    by (rule C7_block_still_life [OF h1 _ _ _ _ _ _ h8]) simp_all
  then show ?thesis using h1 h8 by simp
qed

section \<open>The initial grid\<close>

lemma length_fill_initialData: "length (fst (fill_initialData rand n r)) = n"
  by (induction n arbitrary: r) (simp_all add: split_beta Let_def)

lemma fill_initialData_binary:
  "b \<in> set (fst (fill_initialData rand n r)) \<Longrightarrow> b = ALIVE \<or> b = DEAD"
  by (induction n arbitrary: r) (auto simp: split_beta Let_def ALIVE_def DEAD_def split: if_splits)

lemma main_init_current:
  "current (fst (main_init W H rand r0 t0 t1 u0 u1 upload_err readback_err)) = t0"
  by (simp add: main_init_def initializeGrid_def constructed_def current_def Let_def split_beta
      split: option.splits)

lemma main_init_uploaded:
  "image_of (fst (main_init W H rand r0 t0 t1 u0 u1 GL_NO_ERROR readback_err)) t0 =
     \<lparr>img_width = W, img_height = H, texels = fst (fill_initialData rand (nat (W * H)) r0)\<rparr>"
  by (simp add: main_init_def initializeGrid_def constructed_def image_of_def Let_def split_beta)

text \<open>
  C10. The program never calls \<^verbatim>\<open>srand\<close>, so in every run the generator starts from the
  state \<open>r0\<close> that the C library gives to a fresh process. Two runs of the same program
  (same \<^verbatim>\<open>WIDTH\<close>, \<^verbatim>\<open>HEIGHT\<close> and C library) in which the upload succeeds start from the same
  current grid, whatever texture names, unspecified initial texture contents and read-back
  results the two runs get from GL; the grid is \<^verbatim>\<open>WIDTH * HEIGHT\<close> bytes drawn from \<open>r0\<close>.
\<close>

theorem C10_same_initial_grid:
  assumes "upload_err = GL_NO_ERROR" and "upload_err' = GL_NO_ERROR" and "W mod 4 = 0"
  shows "image_of (fst (main_init W H rand r0 t0 t1 u0 u1 upload_err readback_err))
           (current (fst (main_init W H rand r0 t0 t1 u0 u1 upload_err readback_err))) =
         image_of (fst (main_init W H rand r0 t0' t1' u0' u1' upload_err' readback_err'))
           (current (fst (main_init W H rand r0 t0' t1' u0' u1' upload_err' readback_err'))) \<and>
         image_of (fst (main_init W H rand r0 t0 t1 u0 u1 upload_err readback_err))
           (current (fst (main_init W H rand r0 t0 t1 u0 u1 upload_err readback_err))) =
         \<lparr>img_width = W, img_height = H, texels = fst (fill_initialData rand (nat (W * H)) r0)\<rparr>"
  unfolding assms(1,2) main_init_current main_init_uploaded by simp

theorem C10_same_initial_grid_witness:
  "GL_NO_ERROR = GL_NO_ERROR \<and> (4 :: int) mod 4 = 0 \<and>
   image_of (fst (main_init 4 1 (\<lambda>r :: nat. (int (r * 3), Suc r)) 1 1 2 (\<lambda>i. 0) (\<lambda>i. 0) GL_NO_ERROR GL_NO_ERROR))
     (current (fst (main_init 4 1 (\<lambda>r :: nat. (int (r * 3), Suc r)) 1 1 2 (\<lambda>i. 0) (\<lambda>i. 0) GL_NO_ERROR GL_NO_ERROR))) =
   image_of (fst (main_init 4 1 (\<lambda>r :: nat. (int (r * 3), Suc r)) 1 7 9 (\<lambda>i. 200) (\<lambda>i. 13) GL_NO_ERROR 1282))
     (current (fst (main_init 4 1 (\<lambda>r :: nat. (int (r * 3), Suc r)) 1 7 9 (\<lambda>i. 200) (\<lambda>i. 13) GL_NO_ERROR 1282))) \<and>
   image_of (fst (main_init 4 1 (\<lambda>r :: nat. (int (r * 3), Suc r)) 1 1 2 (\<lambda>i. 0) (\<lambda>i. 0) GL_NO_ERROR GL_NO_ERROR))
     (current (fst (main_init 4 1 (\<lambda>r :: nat. (int (r * 3), Suc r)) 1 1 2 (\<lambda>i. 0) (\<lambda>i. 0) GL_NO_ERROR GL_NO_ERROR))) =
   \<lparr>img_width = 4, img_height = 1, texels = [255, 0, 255, 0]\<rparr>"
proof -
  have d: "fst (fill_initialData (\<lambda>r :: nat. (int (r * 3), Suc r)) (nat (4 * 1)) 1) = [255, 0, 255, 0]"
    by (simp add: eval_nat_numeral trunc_mod_def)
  have m: "(4 :: int) mod 4 = 0" by simp
  show ?thesis
    using m C10_same_initial_grid [OF refl refl m, of 1 "\<lambda>r :: nat. (int (r * 3), Suc r)" 1 1 2
        "\<lambda>i. 0" "\<lambda>i. 0" GL_NO_ERROR 7 9 "\<lambda>i. 200" "\<lambda>i. 13" 1282]
    unfolding d by blast
qed

lemma trunc_mod_2_odd: "trunc_mod v 2 \<noteq> 0 \<longleftrightarrow> odd v"
proof -
  have "\<bar>v\<bar> mod 2 \<noteq> 0 \<longleftrightarrow> odd v" by presburger
  moreover have "odd v \<Longrightarrow> sgn v \<noteq> 0" by (auto simp: sgn_if)
  ultimately show ?thesis by (auto simp: trunc_mod_def)
qed

lemma fill_initialData_parity:
  "fst (fill_initialData rand n r) =
     map (\<lambda>v. if odd v then ALIVE else DEAD) (rand_values rand n r)"
  by (induction n arbitrary: r)
     (simp_all add: split_beta Let_def trunc_mod_2_odd ALIVE_def DEAD_def)

lemma length_rand_values: "length (rand_values rand n r) = n"
  by (induction n arbitrary: r) simp_all

text \<open>
  C8 as stated fails: the density cannot be configured. With the density argument 0 and a
  generator whose values are odd the first cell is ALIVE, and with the density argument 1 and
  a generator whose values are even the first cell is DEAD; a Bernoulli(0) sample is never
  ALIVE and a Bernoulli(1) sample never DEAD.
\<close>

theorem C8_density_not_configurable:
  "texel (image_of (fst (initialize 4 1 0 (\<lambda>r :: unit. (1, r)) () 1 2 (\<lambda>i. 0) (\<lambda>i. 0) GL_NO_ERROR GL_NO_ERROR))
      (current (fst (initialize 4 1 0 (\<lambda>r :: unit. (1, r)) () 1 2 (\<lambda>i. 0) (\<lambda>i. 0) GL_NO_ERROR GL_NO_ERROR))))
      (0, 0) = ALIVE \<and>
   texel (image_of (fst (initialize 4 1 1 (\<lambda>r :: unit. (2, r)) () 1 2 (\<lambda>i. 0) (\<lambda>i. 0) GL_NO_ERROR GL_NO_ERROR))
      (current (fst (initialize 4 1 1 (\<lambda>r :: unit. (2, r)) () 1 2 (\<lambda>i. 0) (\<lambda>i. 0) GL_NO_ERROR GL_NO_ERROR))))
      (0, 0) = DEAD \<and>
   ALIVE \<noteq> DEAD"
proof -
  have a: "fst (fill_initialData (\<lambda>r :: unit. (1, r)) (nat (4 * 1)) ()) = [255, 255, 255, 255]"
    by (simp add: eval_nat_numeral trunc_mod_def)
  have b: "fst (fill_initialData (\<lambda>r :: unit. (2, r)) (nat (4 * 1)) ()) = [0, 0, 0, 0]"
    by (simp add: eval_nat_numeral trunc_mod_def)
  show ?thesis
    unfolding initialize_def main_init_current main_init_uploaded a b
    by (simp add: texel_def in_image_def texel_index_def ALIVE_def DEAD_def)
qed

text \<open>
  C8 as amended. \<^verbatim>\<open>initializeGrid()\<close> takes no density. When the upload succeeds, the current
  grid (\<^verbatim>\<open>textures[0]\<close>, as \<^verbatim>\<open>currentTextureIdx\<close> is 0) holds in its \<open>i\<close>-th cell ALIVE if the
  \<open>i\<close>-th value of \<^verbatim>\<open>rand()\<close> is odd and DEAD if it is even, one value per cell for all
  \<^verbatim>\<open>WIDTH * HEIGHT\<close> cells, whatever density is asked for.
\<close>

theorem C8_initial_grid_rand_parity:
  assumes "upload_err = GL_NO_ERROR" and "W mod 4 = 0"
  shows "current (fst (initialize W H density rand r0 t0 t1 u0 u1 upload_err readback_err)) = t0 \<and>
         currentTextureIdx (fst (initialize W H density rand r0 t0 t1 u0 u1 upload_err readback_err)) = 0 \<and>
         textures (fst (initialize W H density rand r0 t0 t1 u0 u1 upload_err readback_err)) ! 0 = t0 \<and>
         image_of (fst (initialize W H density rand r0 t0 t1 u0 u1 upload_err readback_err)) t0 =
           \<lparr>img_width = W, img_height = H,
            texels = map (\<lambda>v. if odd v then ALIVE else DEAD) (rand_values rand (nat (W * H)) r0)\<rparr> \<and>
         length (rand_values rand (nat (W * H)) r0) = nat (W * H)"
proof -
  have "currentTextureIdx (fst (initialize W H density rand r0 t0 t1 u0 u1 upload_err readback_err)) = 0"
    "textures (fst (initialize W H density rand r0 t0 t1 u0 u1 upload_err readback_err)) ! 0 = t0"
    by (simp_all add: initialize_def main_init_def initializeGrid_def constructed_def Let_def split_beta
        split: option.splits)
  then show ?thesis
    unfolding assms(1) initialize_def main_init_current main_init_uploaded fill_initialData_parity
    by (simp add: length_rand_values)
qed

theorem C8_initial_grid_rand_parity_witness:
  "GL_NO_ERROR = GL_NO_ERROR \<and> (4 :: int) mod 4 = 0 \<and>
   current (fst (initialize 4 1 (1 / 4) (\<lambda>r :: nat. (int (r * 3), Suc r)) 1 1 2 (\<lambda>i. 0) (\<lambda>i. 0) GL_NO_ERROR GL_NO_ERROR)) = 1 \<and>
   image_of (fst (initialize 4 1 (1 / 4) (\<lambda>r :: nat. (int (r * 3), Suc r)) 1 1 2 (\<lambda>i. 0) (\<lambda>i. 0) GL_NO_ERROR GL_NO_ERROR)) 1 =
     \<lparr>img_width = 4, img_height = 1, texels = [ALIVE, DEAD, ALIVE, DEAD]\<rparr>"
proof -
  have v: "rand_values (\<lambda>r :: nat. (int (r * 3), Suc r)) (nat (4 * 1)) 1 = [3, 6, 9, 12]"
    by (simp add: eval_nat_numeral)
  have m: "(4 :: int) mod 4 = 0" by simp
  show ?thesis
    using m C8_initial_grid_rand_parity [OF refl m, of 1 "1 / 4" "\<lambda>r :: nat. (int (r * 3), Suc r)" 1 1 2
        "\<lambda>i. 0" "\<lambda>i. 0" GL_NO_ERROR]
    unfolding v by simp
qed

section \<open>The barrier in the command stream of a frame\<close>






section \<open>The blinker on the grid of the program\<close>

lemma program_size: "4 \<le> WIDTH" "4 \<le> HEIGHT" "0 \<le> WIDTH" "0 \<le> HEIGHT" "0 < WIDTH" "0 < HEIGHT"
  by (simp_all add: WIDTH_def HEIGHT_def)

text \<open>
  C6. On the grid of the program (2000 x 2000), for a blinker in either orientation at any
  position (wrapping across the edges included) with every other cell DEAD: one successful
  step turns it into the blinker of the other orientation with the same centre, which is a
  different grid, and applying the step exactly 2 times returns the current grid to its
  original configuration.
\<close>

theorem C6_blinker_period_2:
  assumes "wf_state WIDTH HEIGHT s"
    and "0 \<le> cx" and "cx < WIDTH" and "0 \<le> cy" and "cy < HEIGHT"
    and "image_of s (current s) = blinker ori WIDTH HEIGHT cx cy"
  shows "image_of (computeStep WIDTH HEIGHT GL_NO_ERROR s)
            (current (computeStep WIDTH HEIGHT GL_NO_ERROR s)) =
           blinker (turned ori) WIDTH HEIGHT cx cy \<and>
         blinker (turned ori) WIDTH HEIGHT cx cy \<noteq> blinker ori WIDTH HEIGHT cx cy \<and>
         image_of (computeStep WIDTH HEIGHT GL_NO_ERROR (computeStep WIDTH HEIGHT GL_NO_ERROR s))
            (current (computeStep WIDTH HEIGHT GL_NO_ERROR (computeStep WIDTH HEIGHT GL_NO_ERROR s))) =
           blinker ori WIDTH HEIGHT cx cy"
proof -
  note size = program_size(1,2)
  note h = step_blinker_h [OF size assms(2-5)] and v = step_blinker_v [OF size assms(2-5)]
  note ne = blinker_turned_neq [OF size assms(2-5)]
  show ?thesis
    unfolding one_step [OF assms(1)] two_steps [OF assms(1)] assms(6)
    using h v ne by (cases ori) auto
qed

theorem C6_blinker_period_2_witness:
  "wf_state WIDTH HEIGHT
     (state_with (blinker Horizontal WIDTH HEIGHT 0 1999) (mk_image WIDTH HEIGHT (\<lambda>p. 7))) \<and>
   (0 :: int) \<le> 0 \<and> 0 < WIDTH \<and> (0 :: int) \<le> 1999 \<and> 1999 < HEIGHT \<and>
   image_of (state_with (blinker Horizontal WIDTH HEIGHT 0 1999) (mk_image WIDTH HEIGHT (\<lambda>p. 7)))
     (current (state_with (blinker Horizontal WIDTH HEIGHT 0 1999) (mk_image WIDTH HEIGHT (\<lambda>p. 7))))
     = blinker Horizontal WIDTH HEIGHT 0 1999 \<and>
   image_of (computeStep WIDTH HEIGHT GL_NO_ERROR
        (state_with (blinker Horizontal WIDTH HEIGHT 0 1999) (mk_image WIDTH HEIGHT (\<lambda>p. 7))))
     (current (computeStep WIDTH HEIGHT GL_NO_ERROR
        (state_with (blinker Horizontal WIDTH HEIGHT 0 1999) (mk_image WIDTH HEIGHT (\<lambda>p. 7)))))
     = blinker Vertical WIDTH HEIGHT 0 1999 \<and>
   image_of (computeStep WIDTH HEIGHT GL_NO_ERROR (computeStep WIDTH HEIGHT GL_NO_ERROR
        (state_with (blinker Horizontal WIDTH HEIGHT 0 1999) (mk_image WIDTH HEIGHT (\<lambda>p. 7)))))
     (current (computeStep WIDTH HEIGHT GL_NO_ERROR (computeStep WIDTH HEIGHT GL_NO_ERROR
        (state_with (blinker Horizontal WIDTH HEIGHT 0 1999) (mk_image WIDTH HEIGHT (\<lambda>p. 7))))))
     = blinker Horizontal WIDTH HEIGHT 0 1999"
proof -
  let ?s = "state_with (blinker Horizontal WIDTH HEIGHT 0 1999) (mk_image WIDTH HEIGHT (\<lambda>p. 7))"
  have h1: "wf_state WIDTH HEIGHT ?s"
    using program_size(3,4) by (simp add: wf_state_with wf_patterns wf_mk_image)
  have h2: "(0 :: int) \<le> 0" "0 < WIDTH" "(0 :: int) \<le> 1999" "1999 < HEIGHT"
    by (simp_all add: WIDTH_def HEIGHT_def)
  have h6: "image_of ?s (current ?s) = blinker Horizontal WIDTH HEIGHT 0 1999"
    by (simp add: state_with_current)
  from C6_blinker_period_2 [OF h1 h2 h6] h1 h2 h6 show ?thesis
    by (simp del: blinker.simps)
qed

section \<open>The binary grid after a step\<close>

lemma main_init_wf:
  assumes "t0 \<noteq> t1" "0 \<le> W" "0 \<le> H"
  shows "wf_state W H (fst (main_init W H rand r0 t0 t1 u0 u1 GL_NO_ERROR readback_err))"
  using assms
  by (simp add: main_init_def initializeGrid_def constructed_def wf_state_def has_image_def
      wf_image_def Let_def split_beta length_fill_initialData)

lemma main_init_writable:
  assumes "t0 \<noteq> t1"
  shows "writable (fst (main_init W H rand r0 t0 t1 u0 u1 GL_NO_ERROR readback_err)) = t1"
    and "image_of (fst (main_init W H rand r0 t0 t1 u0 u1 GL_NO_ERROR readback_err)) t1 =
           \<lparr>img_width = W, img_height = H, texels = map u1 [0..<nat (W * H)]\<rparr>"
  using assms
  by (simp_all add: main_init_def initializeGrid_def constructed_def writable_def image_of_def
      Let_def split_beta)

lemma texel_origin:
  assumes "0 < W" "0 < H" "length xs = nat (W * H)"
  shows "texel \<lparr>img_width = W, img_height = H, texels = xs\<rparr> (0, 0) = xs ! 0"
  using assms by (simp add: texel_def in_image_def texel_index_def)

lemma fill_initialData_first:
  "0 < n \<Longrightarrow> fst (fill_initialData rand n r) ! 0 =
     (if odd (fst (rand r)) then ALIVE else DEAD)"
  unfolding fill_initialData_parity by (cases n) simp_all

lemma nat_area_pos: "0 < W \<Longrightarrow> 0 < H \<Longrightarrow> 0 < nat (W * H)"
  by simp

lemma computeStep_err_image:
  "err \<noteq> GL_NO_ERROR \<Longrightarrow> image_of (computeStep W H err s) t = image_of s t"
  by (simp add: image_of_def computeStep_err_store)

text \<open>
  C9 as stated fails: not every step establishes the invariant. In the program as built,
  let the generator return odd values and let the texels that \<^verbatim>\<open>glTexImage2D\<close> allocates for
  \<^verbatim>\<open>textures[1]\<close> without data hold the byte 7. After \<^verbatim>\<open>initializeGrid\<close> the current cell
  \<open>(0, 0)\<close> is ALIVE; when the first dispatch fails with \<^verbatim>\<open>GL_INVALID_OPERATION\<close> (1282),
  nothing is written, the index is flipped, and the current cell \<open>(0, 0)\<close> is the byte 7,
  neither ALIVE nor DEAD.
\<close>

theorem C9_failed_step_stale_cell:
  "wf_state WIDTH HEIGHT
     (fst (main_init WIDTH HEIGHT (\<lambda>r :: unit. (1, r)) () 1 2 (\<lambda>i. 0) (\<lambda>i. 7) GL_NO_ERROR GL_NO_ERROR)) \<and>
   texel (image_of
       (fst (main_init WIDTH HEIGHT (\<lambda>r :: unit. (1, r)) () 1 2 (\<lambda>i. 0) (\<lambda>i. 7) GL_NO_ERROR GL_NO_ERROR))
       (current
         (fst (main_init WIDTH HEIGHT (\<lambda>r :: unit. (1, r)) () 1 2 (\<lambda>i. 0) (\<lambda>i. 7) GL_NO_ERROR GL_NO_ERROR))))
     (0, 0) = ALIVE \<and>
   texel (image_of
       (computeStep WIDTH HEIGHT 1282
         (fst (main_init WIDTH HEIGHT (\<lambda>r :: unit. (1, r)) () 1 2 (\<lambda>i. 0) (\<lambda>i. 7) GL_NO_ERROR GL_NO_ERROR)))
       (current (computeStep WIDTH HEIGHT 1282
         (fst (main_init WIDTH HEIGHT (\<lambda>r :: unit. (1, r)) () 1 2 (\<lambda>i. 0) (\<lambda>i. 7) GL_NO_ERROR GL_NO_ERROR)))))
     (0, 0) = 7 \<and>
   (7 :: GLubyte) \<noteq> ALIVE \<and> (7 :: GLubyte) \<noteq> DEAD"
proof -
  let ?s = "fst (main_init WIDTH HEIGHT (\<lambda>r :: unit. (1, r)) () 1 2 (\<lambda>i. 0) (\<lambda>i. 7) GL_NO_ERROR GL_NO_ERROR)"
  have ne: "(1 :: GLuint) \<noteq> 2" by simp
  have e: "(1282 :: GLenum) \<noteq> GL_NO_ERROR" by (simp add: GL_NO_ERROR_def)
  have wf: "wf_state WIDTH HEIGHT ?s"
    by (rule main_init_wf [OF ne program_size(3,4)])
  have n: "0 < nat (WIDTH * HEIGHT)" by (rule nat_area_pos [OF program_size(5,6)])
  have 1: "texel (image_of ?s (current ?s)) (0, 0) = ALIVE"
    unfolding main_init_current main_init_uploaded
    by (subst texel_origin [OF program_size(5,6)])
       (simp_all add: length_fill_initialData fill_initialData_first [OF n])
  have c: "current (computeStep WIDTH HEIGHT 1282 ?s) = 2"
    unfolding computeStep_roles [OF wf] by (rule main_init_writable(1) [OF ne])
  have 2: "texel (image_of (computeStep WIDTH HEIGHT 1282 ?s) (current (computeStep WIDTH HEIGHT 1282 ?s))) (0, 0) = 7"
    unfolding c computeStep_err_image [OF e] main_init_writable(2) [OF ne]
    using n by (subst texel_origin [OF program_size(5,6)]) simp_all
  have 3: "(7 :: GLubyte) \<noteq> ALIVE" "(7 :: GLubyte) \<noteq> DEAD"
    by (simp_all add: ALIVE_def DEAD_def)
  from wf 1 2 3 show ?thesis by blast
qed

text \<open>
  C9 as amended. For every grid in the two textures, intermediate intensities included, and
  every cell \<open>p\<close>: after a step whose dispatch succeeds, the current cell \<open>p\<close> is the rule
  applied to the inputs thresholded at the midpoint (the cell counts as ALIVE exactly when its
  byte is at least 128, and so does each of its 8 neighbours), and it is exactly ALIVE
  (byte 255, read back as 1.0) or DEAD (byte 0, read back as 0.0), whatever the writable
  texture held before. After a step whose dispatch fails, no cell has been written and the
  current cell \<open>p\<close> is the byte that the writable texture held before the step.
\<close>

theorem C9_binary_output:
  assumes "wf_state W H s" and "in_image (image_of s (current s)) p"
  shows "texel (image_of (computeStep W H err s) (current (computeStep W H err s))) p =
           (if err = GL_NO_ERROR
            then spec_rule (128 \<le> unat (texel (image_of s (current s)) p))
                   (int (length (filter (\<lambda>q. 128 \<le> unat (texel (image_of s (current s)) q))
                      (spec_neighbors W H p))))
            else texel (image_of s (writable s)) p) \<and>
         (texel (image_of (computeStep W H GL_NO_ERROR s) (current (computeStep W H GL_NO_ERROR s))) p = ALIVE \<or>
          texel (image_of (computeStep W H GL_NO_ERROR s) (current (computeStep W H GL_NO_ERROR s))) p = DEAD) \<and>
         (imageLoad_r (image_of s (current s)) p > 1 / 2 \<longleftrightarrow> 128 \<le> unat (texel (image_of s (current s)) p)) \<and>
         unat ALIVE = 255 \<and> unat DEAD = 0 \<and>
         unorm8_to_float ALIVE = 1 \<and> unorm8_to_float DEAD = 0"
proof -
  let ?cur = "image_of s (current s)"
  let ?ok = "computeStep W H GL_NO_ERROR s"
  obtain x y where p: "p = (x, y)" by (cases p)
  have wf: "wf_image W H ?cur" using assms(1) by (rule image_of_current_wf)
  from assms(2) wf p have b: "0 \<le> x" "x < W" "0 \<le> y" "y < H"
    by (simp_all add: in_image_def wf_image_def)
  have "texel (image_of ?ok (current ?ok)) p = texel (spec_next_generation W H ?cur) p"
    by (simp add: one_step [OF assms(1)])
  also have "\<dots> = spec_rule (spec_alive (texel ?cur p)) (spec_live_count W H ?cur p)"
    unfolding spec_next_generation_def p by (rule texel_mk_image [OF b])
  finally have ok: "texel (image_of ?ok (current ?ok)) p =
      spec_rule (128 \<le> unat (texel ?cur p))
        (int (length (filter (\<lambda>q. 128 \<le> unat (texel ?cur q)) (spec_neighbors W H p))))"
    by (simp add: spec_alive_def spec_live_count_def)
  have bad: "texel (image_of (computeStep W H err s) (current (computeStep W H err s))) p =
      texel (image_of s (writable s)) p" if "err \<noteq> GL_NO_ERROR"
    by (simp add: computeStep_roles [OF assms(1)] computeStep_err_image [OF that])
  have 1: "texel (image_of (computeStep W H err s) (current (computeStep W H err s))) p =
           (if err = GL_NO_ERROR
            then spec_rule (128 \<le> unat (texel ?cur p))
                   (int (length (filter (\<lambda>q. 128 \<le> unat (texel ?cur q)) (spec_neighbors W H p))))
            else texel (image_of s (writable s)) p)"
    using ok bad by (cases "err = GL_NO_ERROR") simp_all
  have 2: "texel (image_of ?ok (current ?ok)) p = ALIVE \<or> texel (image_of ?ok (current ?ok)) p = DEAD"
    unfolding ok by (simp add: spec_rule_def)
  have 3: "imageLoad_r ?cur p > 1 / 2 \<longleftrightarrow> 128 \<le> unat (texel ?cur p)"
    unfolding imageLoad_r_def unorm8_gt_half spec_alive_def ..
  have 4: "unat ALIVE = 255" "unat DEAD = 0" "unorm8_to_float ALIVE = 1" "unorm8_to_float DEAD = 0"
    by (simp_all add: ALIVE_def DEAD_def unorm8_to_float_def)
  from 1 2 3 4 show ?thesis by blast
qed


theorem C9_binary_output_witness:
  "wf_state WIDTH HEIGHT
     (state_with
       (mk_image WIDTH HEIGHT (\<lambda>p. if snd p = 1 \<and> (fst p = 0 \<or> fst p = 1 \<or> fst p = 2) then 200 else 100))
       (mk_image WIDTH HEIGHT (\<lambda>p. 7))) \<and>
   in_image (image_of
     (state_with
       (mk_image WIDTH HEIGHT (\<lambda>p. if snd p = 1 \<and> (fst p = 0 \<or> fst p = 1 \<or> fst p = 2) then 200 else 100))
       (mk_image WIDTH HEIGHT (\<lambda>p. 7)))
     (current (state_with
       (mk_image WIDTH HEIGHT (\<lambda>p. if snd p = 1 \<and> (fst p = 0 \<or> fst p = 1 \<or> fst p = 2) then 200 else 100))
       (mk_image WIDTH HEIGHT (\<lambda>p. 7))))) (1, 0) \<and>
   texel (image_of
     (computeStep WIDTH HEIGHT GL_NO_ERROR (state_with
       (mk_image WIDTH HEIGHT (\<lambda>p. if snd p = 1 \<and> (fst p = 0 \<or> fst p = 1 \<or> fst p = 2) then 200 else 100))
       (mk_image WIDTH HEIGHT (\<lambda>p. 7))))
     (current (computeStep WIDTH HEIGHT GL_NO_ERROR (state_with
       (mk_image WIDTH HEIGHT (\<lambda>p. if snd p = 1 \<and> (fst p = 0 \<or> fst p = 1 \<or> fst p = 2) then 200 else 100))
       (mk_image WIDTH HEIGHT (\<lambda>p. 7)))))) (1, 0) = ALIVE \<and>
   texel (image_of
     (computeStep WIDTH HEIGHT 1282 (state_with
       (mk_image WIDTH HEIGHT (\<lambda>p. if snd p = 1 \<and> (fst p = 0 \<or> fst p = 1 \<or> fst p = 2) then 200 else 100))
       (mk_image WIDTH HEIGHT (\<lambda>p. 7))))
     (current (computeStep WIDTH HEIGHT 1282 (state_with
       (mk_image WIDTH HEIGHT (\<lambda>p. if snd p = 1 \<and> (fst p = 0 \<or> fst p = 1 \<or> fst p = 2) then 200 else 100))
       (mk_image WIDTH HEIGHT (\<lambda>p. 7)))))) (1, 0) = 7"
proof -
  let ?f = "\<lambda>p :: ivec2. if snd p = 1 \<and> (fst p = 0 \<or> fst p = 1 \<or> fst p = 2) then 200 else 100 :: GLubyte"
  let ?G = "mk_image 2000 2000 ?f"
  let ?N = "mk_image 2000 2000 (\<lambda>p. 7)"
  let ?s = "state_with ?G ?N"
  have wfG: "wf_image 2000 2000 ?G" by (simp add: wf_mk_image)
  have h1: "wf_state 2000 2000 ?s" by (simp add: wf_state_with wf_mk_image)
  have cur: "image_of ?s (current ?s) = ?G" and wr: "image_of ?s (writable ?s) = ?N"
    by (simp_all add: state_with_current)
  have h2: "in_image (image_of ?s (current ?s)) (1, 0)"
    unfolding cur using wfG by (simp add: in_image_def wf_image_def)
  have t: "texel ?G (x, y) = ?f (x, y)" if "0 \<le> x" "x < 2000" "0 \<le> y" "y < 2000" for x y
    by (rule texel_mk_image [OF that])
  have tN: "texel ?N (1, 0) = 7" by (subst texel_mk_image) simp_all
  have e: "(1282 :: GLenum) \<noteq> GL_NO_ERROR" by (simp add: GL_NO_ERROR_def)
  have ok: "texel (image_of (computeStep 2000 2000 GL_NO_ERROR ?s)
              (current (computeStep 2000 2000 GL_NO_ERROR ?s))) (1, 0) = ALIVE"
    using C9_binary_output [OF h1 h2, of GL_NO_ERROR]
    unfolding cur by (simp add: t spec_neighbors_def spec_rule_def)
  have bad: "texel (image_of (computeStep 2000 2000 1282 ?s)
              (current (computeStep 2000 2000 1282 ?s))) (1, 0) = 7"
    using C9_binary_output [OF h1 h2, of 1282] e
    unfolding wr tN by simp
  from h1 h2 ok bad show ?thesis unfolding WIDTH_def HEIGHT_def by blast
qed

end
